theory Spec2Isabelle
  imports Main
begin

section \<open>Data model of \<open>findiff/vector.py\<close>\<close>

text \<open>
  A NumPy array is its shape together with its elements in row-major order. The element
  type is left open: the operators only use \<open>0\<close>, \<open>+\<close> and \<open>-\<close> on elements, and no
  algebraic law is assumed of them unless a theorem says so.
\<close>

record 'a ndarray =
  shape :: "nat list"
  data :: "'a list"

definition wf_array :: "'a ndarray \<Rightarrow> bool" where
  "wf_array a = (length (data a) = prod_list (shape a))"

text \<open>The \<open>coords\<close> keyword: one array, or a (non-array) sequence of per-axis arrays.\<close>

datatype 'a coords = CoordsArray "'a ndarray" | CoordsSeq "'a ndarray list"

text \<open>What a caller may pass as the field \<open>f\<close>: an array, a list of arrays, or a bare number.\<close>

datatype 'a pyobj = NdArray "'a ndarray" | PyList "'a ndarray list" | PyScalar 'a

datatype pyexc = TypeError | ValueError | AttributeError | IndexError

text \<open>
  An exception is recorded with its origin: \<open>Raise\<close> for a \<open>raise\<close> statement of
  \<open>vector.py\<close> itself, \<open>Runtime\<close> for one raised by the interpreter or by NumPy while an
  expression of \<open>vector.py\<close> is evaluated, \<open>External\<close> for one coming out of \<open>FinDiff\<close>
  (its constructor or the application of a differentiator it built).
\<close>

datatype 'e error = Raise pyexc | Runtime pyexc | External 'e

type_synonym ('a, 'e) differentiator = "'a pyobj \<Rightarrow> 'e + 'a ndarray"

text \<open>
  The arguments of one call \<open>FinDiff((axis, spacing, order), coords=..., **kwargs)\<close>; a
  position of the tuple or a keyword that the call does not give is \<open>None\<close>.
\<close>

record 'a findiff_args =
  fd_axis :: nat
  fd_spacing :: "'a option"
  fd_order :: "nat option"
  fd_coords :: "'a coords option"
  fd_kwargs :: "(string \<times> int) list"

text \<open>The keyword dictionary of a constructor: \<open>h\<close>, \<open>coords\<close> and whatever else was given.\<close>

record 'a kwargs =
  kw_h :: "'a list option"
  kw_coords :: "'a coords option"
  kw_rest :: "(string \<times> int) list"

text \<open>The attributes of a \<open>VectorOperator\<close> object; \<open>None\<close> is an attribute never assigned.\<close>

record ('a, 'e) VectorOperator =
  attr_h :: "'a ndarray option"
  ndims :: "nat option"
  components :: "('a, 'e) differentiator list option"

definition new_object :: "('a, 'e) VectorOperator" where
  "new_object = \<lparr>attr_h = None, ndims = None, components = None\<rparr>"

section \<open>Construction\<close>

text \<open>
  Modelled from the spec: \<open>findiff.util.wrap_in_ndarray\<close> is not part of the sources at hand;
  the specification says that the uniform spacings are normalised to a one-dimensional
  numeric sequence of length N.
\<close>

definition wrap_in_ndarray :: "'a list \<Rightarrow> 'a ndarray" where
  "wrap_in_ndarray hv = \<lparr>shape = [length hv], data = hv\<rparr>"

text \<open>\<open>len(a)\<close> of an array: the length of its first axis; a 0-d array has no \<open>len\<close>.\<close>

definition nd_len :: "'a ndarray \<Rightarrow> 'e error + nat" where
  "nd_len a = (case shape a of [] \<Rightarrow> Inl (Runtime TypeError) | n # _ \<Rightarrow> Inr n)"

text \<open>
  The list comprehension \<open>[FinDiff(...) for k in range(n)]\<close>: the calls are made in order
  and the first exception leaves the comprehension.
\<close>

fun comprehension :: "(nat \<Rightarrow> 'e + 'd) \<Rightarrow> nat list \<Rightarrow> 'e error + 'd list" where
  "comprehension mk [] = Inr []"
| "comprehension mk (k # ks) =
     (case mk k of
        Inl e \<Rightarrow> Inl (External e)
      | Inr d \<Rightarrow> (case comprehension mk ks of Inl e \<Rightarrow> Inl e | Inr ds \<Rightarrow> Inr (d # ds)))"

fun get_dimension :: "'a coords \<Rightarrow> nat" where
  "get_dimension (CoordsArray a) = (if length (shape a) > 1 then shape a ! 0 else 1)"
| "get_dimension (CoordsSeq cs) = length cs"

text \<open>The two calls of \<open>FinDiff\<close> in \<open>VectorOperator.__init__\<close>.\<close>

definition h_call :: "'a ndarray \<Rightarrow> 'a kwargs \<Rightarrow> nat \<Rightarrow> 'a findiff_args" where
  "h_call harr kw k = \<lparr>fd_axis = k, fd_spacing = Some (data harr ! k), fd_order = None,
     fd_coords = kw_coords kw, fd_kwargs = kw_rest kw\<rparr>"

definition coords_call :: "'a coords \<Rightarrow> 'a kwargs \<Rightarrow> nat \<Rightarrow> 'a findiff_args" where
  "coords_call c kw k = \<lparr>fd_axis = k, fd_spacing = None, fd_order = None,
     fd_coords = Some c, fd_kwargs = kw_rest kw\<rparr>"

text \<open>
  \<open>if "h" in kwargs: ...\<close> The object and the dictionary go in, and come out updated:
  \<open>pop\<close> removes the key, so the \<open>FinDiff\<close> calls of this branch still get \<open>coords\<close> when
  the caller gave it.
\<close>

definition init_h ::
  "('a findiff_args \<Rightarrow> 'e + ('a, 'e) differentiator) \<Rightarrow> ('a, 'e) VectorOperator \<times> 'a kwargs
     \<Rightarrow> 'e error + ('a, 'e) VectorOperator \<times> 'a kwargs" where
  "init_h FinDiff st =
     (case st of (self, kw) \<Rightarrow>
        (case kw_h kw of
           None \<Rightarrow> Inr (self, kw)
         | Some hv \<Rightarrow>
             (let kw1 = kw\<lparr>kw_h := None\<rparr>;
                  harr = wrap_in_ndarray hv
              in case nd_len harr of
                   Inl e \<Rightarrow> Inl e
                 | Inr n \<Rightarrow>
                     (case comprehension (\<lambda>k. FinDiff (h_call harr kw1 k)) [0..<n] of
                        Inl e \<Rightarrow> Inl e
                      | Inr cs \<Rightarrow>
                          Inr (self\<lparr>attr_h := Some harr, ndims := Some n,
                                 components := Some cs\<rparr>, kw1)))))"

text \<open>\<open>if "coords" in kwargs: ...\<close>\<close>

definition init_coords ::
  "('a findiff_args \<Rightarrow> 'e + ('a, 'e) differentiator) \<Rightarrow> ('a, 'e) VectorOperator \<times> 'a kwargs
     \<Rightarrow> 'e error + ('a, 'e) VectorOperator \<times> 'a kwargs" where
  "init_coords FinDiff st =
     (case st of (self, kw) \<Rightarrow>
        (case kw_coords kw of
           None \<Rightarrow> Inr (self, kw)
         | Some c \<Rightarrow>
             (let kw1 = kw\<lparr>kw_coords := None\<rparr>;
                  n = get_dimension c
              in case comprehension (\<lambda>k. FinDiff (coords_call c kw1 k)) [0..<n] of
                   Inl e \<Rightarrow> Inl e
                 | Inr cs \<Rightarrow> Inr (self\<lparr>ndims := Some n, components := Some cs\<rparr>, kw1))))"

definition VectorOperator_init ::
  "('a findiff_args \<Rightarrow> 'e + ('a, 'e) differentiator) \<Rightarrow> 'a kwargs
     \<Rightarrow> 'e error + ('a, 'e) VectorOperator" where
  "VectorOperator_init FinDiff kw =
     (case init_h FinDiff (new_object, kw) of
        Inl e \<Rightarrow> Inl e
      | Inr st1 \<Rightarrow>
          (case init_coords FinDiff st1 of
             Inl e \<Rightarrow> Inl e
           | Inr (self, _) \<Rightarrow> Inr self))"

definition Gradient_init ::
  "('a findiff_args \<Rightarrow> 'e + ('a, 'e) differentiator) \<Rightarrow> 'a kwargs
     \<Rightarrow> 'e error + ('a, 'e) VectorOperator" where
  "Gradient_init FinDiff kw = VectorOperator_init FinDiff kw"

definition Divergence_init ::
  "('a findiff_args \<Rightarrow> 'e + ('a, 'e) differentiator) \<Rightarrow> 'a kwargs
     \<Rightarrow> 'e error + ('a, 'e) VectorOperator" where
  "Divergence_init FinDiff kw = VectorOperator_init FinDiff kw"

text \<open>\<open>Curl.__init__\<close>: the base constructor, then the test of \<open>self.ndims\<close>.\<close>

definition Curl_init ::
  "('a findiff_args \<Rightarrow> 'e + ('a, 'e) differentiator) \<Rightarrow> 'a kwargs
     \<Rightarrow> 'e error + ('a, 'e) VectorOperator" where
  "Curl_init FinDiff kw =
     (case VectorOperator_init FinDiff kw of
        Inl e \<Rightarrow> Inl e
      | Inr self \<Rightarrow>
          (case ndims self of
             None \<Rightarrow> Inl (Runtime AttributeError)
           | Some n \<Rightarrow> if n \<noteq> 3 then Inl (Raise ValueError) else Inr self))"

text \<open>
  What a finished constructor has left in \<open>self.ndims\<close> and \<open>self.components\<close> when every
  call of \<open>FinDiff\<close> returned (\<open>D\<close> gives the differentiator returned for each call): the
  \<open>coords\<close> branch runs last and overwrites what the \<open>h\<close> branch assigned.
\<close>

definition inferred_ndims :: "'a kwargs \<Rightarrow> nat option" where
  "inferred_ndims kw =
     (case kw_coords kw of
        Some c \<Rightarrow> Some (get_dimension c)
      | None \<Rightarrow> (case kw_h kw of Some hv \<Rightarrow> Some (length hv) | None \<Rightarrow> None))"

definition built_components ::
  "('a findiff_args \<Rightarrow> ('a, 'e) differentiator) \<Rightarrow> 'a kwargs \<Rightarrow> ('a, 'e) differentiator list option" where
  "built_components D kw =
     (case kw_coords kw of
        Some c \<Rightarrow> Some (map (\<lambda>k. D (coords_call c kw k)) [0..<get_dimension c])
      | None \<Rightarrow>
          (case kw_h kw of
             Some hv \<Rightarrow> Some (map (\<lambda>k. D (h_call (wrap_in_ndarray hv) kw k)) [0..<length hv])
           | None \<Rightarrow> None))"

section \<open>The NumPy operations that \<open>vector.py\<close> uses\<close>

text \<open>\<open>np.zeros(shape)\<close>\<close>

definition np_zeros :: "nat list \<Rightarrow> 'a::zero ndarray" where
  "np_zeros s = \<lparr>shape = s, data = replicate (prod_list s) 0\<rparr>"

text \<open>
  \<open>a[k]\<close> for an integer \<open>k\<close>: the \<open>k\<close>-th block along the first axis. A 0-d array cannot be
  indexed, and \<open>k\<close> must be below the length of the first axis. (What NumPy returns for a
  one-dimensional \<open>a\<close> is a scalar; it is kept here as an array of shape \<open>()\<close>.)
\<close>

definition subarray :: "'a ndarray \<Rightarrow> nat \<Rightarrow> 'a ndarray" where
  "subarray a k =
     \<lparr>shape = tl (shape a),
      data = take (prod_list (tl (shape a))) (drop (k * prod_list (tl (shape a))) (data a))\<rparr>"

definition nd_getitem :: "'a ndarray \<Rightarrow> nat \<Rightarrow> 'e error + 'a ndarray" where
  "nd_getitem a k =
     (case shape a of
        [] \<Rightarrow> Inl (Runtime IndexError)
      | n # s \<Rightarrow> if k < n then Inr (subarray a k) else Inl (Runtime IndexError))"

text \<open>Writing the block \<open>v\<close> back at position \<open>k\<close> of the first axis of \<open>a\<close>.\<close>

definition nd_setitem :: "'a ndarray \<Rightarrow> nat \<Rightarrow> 'a ndarray \<Rightarrow> 'a ndarray" where
  "nd_setitem a k v =
     a\<lparr>data := take (k * prod_list (tl (shape a))) (data a) @ data v
                 @ drop (Suc k * prod_list (tl (shape a))) (data a)\<rparr>"

text \<open>
  Broadcasting. Shapes are aligned at their last axis; two axis lengths are compatible when
  they are equal or one of them is 1.
\<close>

fun bshape_rev :: "nat list \<Rightarrow> nat list \<Rightarrow> nat list option" where
  "bshape_rev [] ys = Some ys"
| "bshape_rev (x # xs) [] = Some (x # xs)"
| "bshape_rev (x # xs) (y # ys) =
     (if x = y \<or> y = 1 then map_option ((#) x) (bshape_rev xs ys)
      else if x = 1 then map_option ((#) y) (bshape_rev xs ys)
      else None)"

definition broadcast_shapes :: "nat list \<Rightarrow> nat list \<Rightarrow> nat list option" where
  "broadcast_shapes s t = map_option rev (bshape_rev (rev s) (rev t))"

text \<open>
  The elements of an array of shape \<open>t\<close> seen at shape \<open>s\<close>, both of the same rank: an axis
  of length 1 is repeated.
\<close>

fun expand :: "nat list \<Rightarrow> nat list \<Rightarrow> 'a list \<Rightarrow> 'a list" where
  "expand (n # s) (m # t) d =
     (if m = n
      then concat (map (\<lambda>i. expand s t (take (prod_list t) (drop (i * prod_list t) d))) [0..<n])
      else concat (replicate n (expand s t d)))"
| "expand s t d = d"

definition broadcast_to :: "nat list \<Rightarrow> 'a ndarray \<Rightarrow> 'a ndarray option" where
  "broadcast_to s a =
     (if shape a = s then Some a
      else if length (shape a) \<le> length s \<and> broadcast_shapes s (shape a) = Some s
      then Some \<lparr>shape = s,
             data = expand s (replicate (length s - length (shape a)) 1 @ shape a) (data a)\<rparr>
      else None)"

text \<open>\<open>a += b\<close>: \<open>b\<close> is broadcast to the shape of \<open>a\<close>, which does not change.\<close>

definition nd_iadd :: "'a::plus ndarray \<Rightarrow> 'a ndarray \<Rightarrow> 'e error + 'a ndarray" where
  "nd_iadd a b =
     (case broadcast_to (shape a) b of
        None \<Rightarrow> Inl (Runtime ValueError)
      | Some b' \<Rightarrow> Inr (a\<lparr>data := map2 (+) (data a) (data b')\<rparr>))"

text \<open>\<open>a - b\<close>: a new array of the common broadcast shape.\<close>

definition nd_sub :: "'a::minus ndarray \<Rightarrow> 'a ndarray \<Rightarrow> 'e error + 'a ndarray" where
  "nd_sub a b =
     (case broadcast_shapes (shape a) (shape b) of
        None \<Rightarrow> Inl (Runtime ValueError)
      | Some s \<Rightarrow>
          (case broadcast_to s a of
             None \<Rightarrow> Inl (Runtime ValueError)
           | Some a' \<Rightarrow>
               (case broadcast_to s b of
                  None \<Rightarrow> Inl (Runtime ValueError)
                | Some b' \<Rightarrow> Inr \<lparr>shape = s, data = map2 (-) (data a') (data b')\<rparr>)))"

text \<open>
  \<open>np.array(xs)\<close> for a list of arrays: the arrays stacked along a new first axis. An
  empty list gives an array of shape \<open>(0,)\<close>. Arrays of different shapes do not make a
  numeric array (NumPy raises \<open>ValueError\<close>, older versions build an array of objects).
\<close>

definition np_array :: "'a ndarray list \<Rightarrow> 'e error + 'a ndarray" where
  "np_array xs =
     (case xs of
        [] \<Rightarrow> Inr \<lparr>shape = [0], data = []\<rparr>
      | x # _ \<Rightarrow>
          if list_all (\<lambda>y. shape y = shape x) xs
          then Inr \<lparr>shape = length xs # shape x, data = concat (map data xs)\<rparr>
          else Inl (Runtime ValueError))"

text \<open>\<open>np.zeros_like(f)\<close>: \<open>f\<close> is read as an array and only its shape is used.\<close>

definition np_zeros_like :: "'a::zero pyobj \<Rightarrow> 'e error + 'a ndarray" where
  "np_zeros_like f =
     (case f of
        NdArray a \<Rightarrow> Inr (np_zeros (shape a))
      | PyScalar x \<Rightarrow> Inr (np_zeros [])
      | PyList xs \<Rightarrow> (case np_array xs of Inl e \<Rightarrow> Inl e | Inr a \<Rightarrow> Inr (np_zeros (shape a))))"

section \<open>Application\<close>

text \<open>\<open>d(x)\<close> for a differentiator \<open>d\<close>: what it raises comes from \<open>FinDiff\<close>.\<close>

definition call :: "('a, 'e) differentiator \<Rightarrow> 'a pyobj \<Rightarrow> 'e error + 'a ndarray" where
  "call d x = (case d x of Inl e \<Rightarrow> Inl (External e) | Inr r \<Rightarrow> Inr r)"

text \<open>\<open>self.components[k]\<close>\<close>

definition get_component ::
  "('a, 'e) VectorOperator \<Rightarrow> nat \<Rightarrow> 'e error + ('a, 'e) differentiator" where
  "get_component self k =
     (case components self of
        None \<Rightarrow> Inl (Runtime AttributeError)
      | Some cs \<Rightarrow> if k < length cs then Inr (cs ! k) else Inl (Runtime IndexError))"

subsection \<open>\<open>Gradient.__call__\<close>\<close>

text \<open>The \<open>for k in range(self.ndims)\<close> loop, appending to \<open>result\<close>.\<close>

fun Gradient_loop ::
  "('a, 'e) VectorOperator \<Rightarrow> 'a ndarray \<Rightarrow> nat list \<Rightarrow> 'a ndarray list
     \<Rightarrow> 'e error + 'a ndarray list" where
  "Gradient_loop self f [] result = Inr result"
| "Gradient_loop self f (k # ks) result =
     (case get_component self k of
        Inl e \<Rightarrow> Inl e
      | Inr d_dxk \<Rightarrow>
          (case call d_dxk (NdArray f) of
             Inl e \<Rightarrow> Inl e
           | Inr r \<Rightarrow> Gradient_loop self f ks (result @ [r])))"

definition Gradient_call ::
  "('a, 'e) VectorOperator \<Rightarrow> 'a pyobj \<Rightarrow> 'e error + 'a ndarray" where
  "Gradient_call self f =
     (case f of
        NdArray a \<Rightarrow>
          (case ndims self of
             None \<Rightarrow> Inl (Runtime AttributeError)
           | Some n \<Rightarrow>
               if length (shape a) \<noteq> n then Inl (Raise ValueError)
               else (case Gradient_loop self a [0..<n] [] of
                       Inl e \<Rightarrow> Inl e
                     | Inr result \<Rightarrow> np_array result))
      | _ \<Rightarrow> Inl (Raise TypeError))"

subsection \<open>\<open>Divergence.__call__\<close>\<close>

text \<open>
  The test \<open>len(f.shape) != self.ndims + 1 and f.shape[0] != self.ndims\<close> for an array \<open>f\<close>:
  \<open>and\<close> evaluates \<open>f.shape[0]\<close> only when the ranks differ, and a 0-d array has no
  \<open>shape[0]\<close>.
\<close>

definition shape_test :: "'a ndarray \<Rightarrow> nat \<Rightarrow> 'e error + bool" where
  "shape_test f n =
     (if length (shape f) \<noteq> n + 1
      then (case shape f of [] \<Rightarrow> Inl (Runtime IndexError) | m # _ \<Rightarrow> Inr (m \<noteq> n))
      else Inr False)"

text \<open>The loop \<open>for k in range(self.ndims): result += self.components[k](f[k])\<close>.\<close>

fun Divergence_loop ::
  "('a::plus, 'e) VectorOperator \<Rightarrow> 'a ndarray \<Rightarrow> nat list \<Rightarrow> 'a ndarray
     \<Rightarrow> 'e error + 'a ndarray" where
  "Divergence_loop self f [] result = Inr result"
| "Divergence_loop self f (k # ks) result =
     (case get_component self k of
        Inl e \<Rightarrow> Inl e
      | Inr d \<Rightarrow>
          (case nd_getitem f k of
             Inl e \<Rightarrow> Inl e
           | Inr fk \<Rightarrow>
               (case call d (NdArray fk) of
                  Inl e \<Rightarrow> Inl e
                | Inr r \<Rightarrow>
                    (case nd_iadd result r of
                       Inl e \<Rightarrow> Inl e
                     | Inr result' \<Rightarrow> Divergence_loop self f ks result'))))"

text \<open>
  A list passes the \<open>isinstance\<close> test and then has no attribute \<open>shape\<close>.
\<close>

definition Divergence_call ::
  "('a::{zero,plus}, 'e) VectorOperator \<Rightarrow> 'a pyobj \<Rightarrow> 'e error + 'a ndarray" where
  "Divergence_call self f =
     (case f of
        PyScalar x \<Rightarrow> Inl (Raise TypeError)
      | PyList xs \<Rightarrow> Inl (Runtime AttributeError)
      | NdArray a \<Rightarrow>
          (case ndims self of
             None \<Rightarrow> Inl (Runtime AttributeError)
           | Some n \<Rightarrow>
               (case shape_test a n of
                  Inl e \<Rightarrow> Inl e
                | Inr True \<Rightarrow> Inl (Raise ValueError)
                | Inr False \<Rightarrow> Divergence_loop self a [0..<n] (np_zeros (tl (shape a))))))"

subsection \<open>\<open>Curl.__call__\<close>\<close>

text \<open>
  One statement \<open>result[i] += self.components[p](f[q]) - self.components[q](f[p])\<close>. The
  target \<open>result[i]\<close> is fetched first, then the right-hand side is evaluated from left to
  right, then the sum is stored at \<open>result[i]\<close>.
\<close>

definition Curl_statement ::
  "('a::{plus,minus}, 'e) VectorOperator \<Rightarrow> 'a ndarray \<Rightarrow> nat \<Rightarrow> nat \<Rightarrow> nat \<Rightarrow> 'a ndarray
     \<Rightarrow> 'e error + 'a ndarray" where
  "Curl_statement self f i p q result =
     (case nd_getitem result i of Inl e \<Rightarrow> Inl e | Inr target \<Rightarrow>
      case get_component self p of Inl e \<Rightarrow> Inl e | Inr dp \<Rightarrow>
      case nd_getitem f q of Inl e \<Rightarrow> Inl e | Inr fq \<Rightarrow>
      case call dp (NdArray fq) of Inl e \<Rightarrow> Inl e | Inr lhs \<Rightarrow>
      case get_component self q of Inl e \<Rightarrow> Inl e | Inr dq \<Rightarrow>
      case nd_getitem f p of Inl e \<Rightarrow> Inl e | Inr fp \<Rightarrow>
      case call dq (NdArray fp) of Inl e \<Rightarrow> Inl e | Inr rhs \<Rightarrow>
      case nd_sub lhs rhs of Inl e \<Rightarrow> Inl e | Inr diff \<Rightarrow>
      case nd_iadd target diff of Inl e \<Rightarrow> Inl e | Inr target' \<Rightarrow>
        Inr (nd_setitem result i target'))"

definition Curl_call ::
  "('a::{zero,plus,minus}, 'e) VectorOperator \<Rightarrow> 'a pyobj \<Rightarrow> 'e error + 'a ndarray" where
  "Curl_call self f =
     (case f of
        PyScalar x \<Rightarrow> Inl (Raise TypeError)
      | PyList xs \<Rightarrow> Inl (Runtime AttributeError)
      | NdArray a \<Rightarrow>
          (case ndims self of
             None \<Rightarrow> Inl (Runtime AttributeError)
           | Some n \<Rightarrow>
               (case shape_test a n of
                  Inl e \<Rightarrow> Inl e
                | Inr True \<Rightarrow> Inl (Raise ValueError)
                | Inr False \<Rightarrow>
                    (case Curl_statement self a 0 1 2 (np_zeros (shape a)) of
                       Inl e \<Rightarrow> Inl e
                     | Inr result1 \<Rightarrow>
                         (case Curl_statement self a 1 2 0 result1 of
                            Inl e \<Rightarrow> Inl e
                          | Inr result2 \<Rightarrow> Curl_statement self a 2 0 1 result2)))))"

subsection \<open>\<open>Laplacian\<close>\<close>

record ('a, 'e) Laplacian =
  parts :: "('a, 'e) differentiator list"

text \<open>
  \<open>Laplacian.__init__(self, h=[1.], acc=2)\<close>; an argument the caller leaves out is \<open>None\<close>
  and takes its default.
\<close>

definition laplace_call :: "'a ndarray \<Rightarrow> int \<Rightarrow> nat \<Rightarrow> 'a findiff_args" where
  "laplace_call harr acc k = \<lparr>fd_axis = k, fd_spacing = Some (data harr ! k), fd_order = Some 2,
     fd_coords = None, fd_kwargs = [(''acc'', acc)]\<rparr>"

definition Laplacian_init ::
  "('a::one findiff_args \<Rightarrow> 'e + ('a, 'e) differentiator) \<Rightarrow> 'a list option \<Rightarrow> int option
     \<Rightarrow> 'e error + ('a, 'e) Laplacian" where
  "Laplacian_init FinDiff h_arg acc_arg =
     (let h0 = (case h_arg of None \<Rightarrow> [1] | Some hv \<Rightarrow> hv);
          acc = (case acc_arg of None \<Rightarrow> 2 | Some a \<Rightarrow> a);
          harr = wrap_in_ndarray h0
      in case nd_len harr of
           Inl e \<Rightarrow> Inl e
         | Inr n \<Rightarrow>
             (case comprehension (\<lambda>k. FinDiff (laplace_call harr acc k)) [0..<n] of
                Inl e \<Rightarrow> Inl e
              | Inr ps \<Rightarrow> Inr \<lparr>parts = ps\<rparr>))"

text \<open>The loop \<open>for part in self._parts: laplace_f += part(f)\<close>.\<close>

fun Laplacian_loop ::
  "'a::plus pyobj \<Rightarrow> ('a, 'e) differentiator list \<Rightarrow> 'a ndarray \<Rightarrow> 'e error + 'a ndarray" where
  "Laplacian_loop f [] laplace_f = Inr laplace_f"
| "Laplacian_loop f (part # ps) laplace_f =
     (case call part f of
        Inl e \<Rightarrow> Inl e
      | Inr r \<Rightarrow>
          (case nd_iadd laplace_f r of
             Inl e \<Rightarrow> Inl e
           | Inr laplace_f' \<Rightarrow> Laplacian_loop f ps laplace_f'))"

definition Laplacian_call ::
  "('a::{zero,plus}, 'e) Laplacian \<Rightarrow> 'a pyobj \<Rightarrow> 'e error + 'a ndarray" where
  "Laplacian_call self f =
     (case np_zeros_like f of
        Inl e \<Rightarrow> Inl e
      | Inr laplace_f \<Rightarrow> Laplacian_loop f (parts self) laplace_f)"

section \<open>Application with the store made explicit\<close>

text \<open>
  The methods above are read as functions of the value of \<open>f\<close>. To say which array objects
  a call writes to, the same methods are now run on a store: the array objects of the
  program, addressed by their position, together with the operator object \<open>self\<close>. The
  caller's \<open>f\<close> is the array at an address \<open>p\<close>; \<open>np.zeros\<close>, \<open>np.zeros_like\<close> and \<open>np.array\<close>
  make a new object; \<open>+=\<close> writes into the object (or the block of the object) on its left.
  A differentiator reads the value it is given and returns a value.
\<close>

record ('a, 'o) world =
  arrays :: "'a ndarray list"
  self_obj :: 'o

definition alloc :: "'a ndarray \<Rightarrow> ('a, 'o) world \<Rightarrow> nat \<times> ('a, 'o) world" where
  "alloc a w = (length (arrays w), w\<lparr>arrays := arrays w @ [a]\<rparr>)"

text \<open>The left-hand side of \<open>+=\<close>: a whole object \<open>result\<close>, or its block \<open>result[i]\<close>.\<close>

datatype target = Whole nat | Block nat nat

definition fetch :: "('a, 'o) world \<Rightarrow> target \<Rightarrow> 'e error + 'a ndarray" where
  "fetch w t =
     (case t of
        Whole r \<Rightarrow> Inr (arrays w ! r)
      | Block r i \<Rightarrow> nd_getitem (arrays w ! r) i)"

definition store :: "target \<Rightarrow> 'a ndarray \<Rightarrow> ('a, 'o) world \<Rightarrow> ('a, 'o) world" where
  "store t v w =
     (case t of
        Whole r \<Rightarrow> w\<lparr>arrays := (arrays w)[r := v]\<rparr>
      | Block r i \<Rightarrow> w\<lparr>arrays := (arrays w)[r := nd_setitem (arrays w ! r) i v]\<rparr>)"

text \<open>\<open>t += b\<close> when the target has already been fetched as \<open>a\<close>.\<close>

definition iadd_at ::
  "target \<Rightarrow> 'a::plus ndarray \<Rightarrow> 'a ndarray \<Rightarrow> ('a, 'o) world
     \<Rightarrow> ('e error + unit) \<times> ('a, 'o) world" where
  "iadd_at t a b w =
     (case nd_iadd a b of
        Inl e \<Rightarrow> (Inl e, w)
      | Inr a' \<Rightarrow> (Inr (), store t a' w))"

definition self_component ::
  "('a, ('a, 'e) VectorOperator) world \<Rightarrow> nat \<Rightarrow> 'e error + ('a, 'e) differentiator" where
  "self_component w k = get_component (self_obj w) k"

definition Gradient_run ::
  "('a, ('a, 'e) VectorOperator) world \<Rightarrow> nat
     \<Rightarrow> ('e error + nat) \<times> ('a, ('a, 'e) VectorOperator) world" where
  "Gradient_run w p =
     (case ndims (self_obj w) of
        None \<Rightarrow> (Inl (Runtime AttributeError), w)
      | Some n \<Rightarrow>
          if length (shape (arrays w ! p)) \<noteq> n then (Inl (Raise ValueError), w)
          else (case Gradient_loop (self_obj w) (arrays w ! p) [0..<n] [] of
                  Inl e \<Rightarrow> (Inl e, w)
                | Inr result \<Rightarrow>
                    (case np_array result of
                       Inl e \<Rightarrow> (Inl e, w)
                     | Inr a \<Rightarrow> (case alloc a w of (r, w') \<Rightarrow> (Inr r, w')))))"

fun Divergence_loop_run ::
  "nat \<Rightarrow> nat \<Rightarrow> nat list \<Rightarrow> ('a::plus, ('a, 'e) VectorOperator) world
     \<Rightarrow> ('e error + nat) \<times> ('a, ('a, 'e) VectorOperator) world" where
  "Divergence_loop_run p r [] w = (Inr r, w)"
| "Divergence_loop_run p r (k # ks) w =
     (case self_component w k of
        Inl e \<Rightarrow> (Inl e, w)
      | Inr d \<Rightarrow>
          (case nd_getitem (arrays w ! p) k of
             Inl e \<Rightarrow> (Inl e, w)
           | Inr fk \<Rightarrow>
               (case call d (NdArray fk) of
                  Inl e \<Rightarrow> (Inl e, w)
                | Inr v \<Rightarrow>
                    (case iadd_at (Whole r) (arrays w ! r) v w of
                       (Inl e, w') \<Rightarrow> (Inl e, w')
                     | (Inr u, w') \<Rightarrow> Divergence_loop_run p r ks w'))))"

definition Divergence_run ::
  "('a::{zero,plus}, ('a, 'e) VectorOperator) world \<Rightarrow> nat
     \<Rightarrow> ('e error + nat) \<times> ('a, ('a, 'e) VectorOperator) world" where
  "Divergence_run w p =
     (case ndims (self_obj w) of
        None \<Rightarrow> (Inl (Runtime AttributeError), w)
      | Some n \<Rightarrow>
          (case shape_test (arrays w ! p) n of
             Inl e \<Rightarrow> (Inl e, w)
           | Inr True \<Rightarrow> (Inl (Raise ValueError), w)
           | Inr False \<Rightarrow>
               (case alloc (np_zeros (tl (shape (arrays w ! p)))) w of
                  (r, w') \<Rightarrow> Divergence_loop_run p r [0..<n] w')))"

definition Curl_statement_run ::
  "nat \<Rightarrow> nat \<Rightarrow> nat \<Rightarrow> nat \<Rightarrow> nat \<Rightarrow> ('a::{plus,minus}, ('a, 'e) VectorOperator) world
     \<Rightarrow> ('e error + unit) \<times> ('a, ('a, 'e) VectorOperator) world" where
  "Curl_statement_run p r i a b w =
     (case fetch w (Block r i) of Inl e \<Rightarrow> (Inl e, w) | Inr target \<Rightarrow>
      case self_component w a of Inl e \<Rightarrow> (Inl e, w) | Inr da \<Rightarrow>
      case nd_getitem (arrays w ! p) b of Inl e \<Rightarrow> (Inl e, w) | Inr fb \<Rightarrow>
      case call da (NdArray fb) of Inl e \<Rightarrow> (Inl e, w) | Inr lhs \<Rightarrow>
      case self_component w b of Inl e \<Rightarrow> (Inl e, w) | Inr db \<Rightarrow>
      case nd_getitem (arrays w ! p) a of Inl e \<Rightarrow> (Inl e, w) | Inr fa \<Rightarrow>
      case call db (NdArray fa) of Inl e \<Rightarrow> (Inl e, w) | Inr rhs \<Rightarrow>
      case nd_sub lhs rhs of Inl e \<Rightarrow> (Inl e, w) | Inr diff \<Rightarrow>
        iadd_at (Block r i) target diff w)"

definition Curl_run ::
  "('a::{zero,plus,minus}, ('a, 'e) VectorOperator) world \<Rightarrow> nat
     \<Rightarrow> ('e error + nat) \<times> ('a, ('a, 'e) VectorOperator) world" where
  "Curl_run w p =
     (case ndims (self_obj w) of
        None \<Rightarrow> (Inl (Runtime AttributeError), w)
      | Some n \<Rightarrow>
          (case shape_test (arrays w ! p) n of
             Inl e \<Rightarrow> (Inl e, w)
           | Inr True \<Rightarrow> (Inl (Raise ValueError), w)
           | Inr False \<Rightarrow>
               (case alloc (np_zeros (shape (arrays w ! p))) w of
                  (r, w0) \<Rightarrow>
                    (case Curl_statement_run p r 0 1 2 w0 of
                       (Inl e, w1) \<Rightarrow> (Inl e, w1)
                     | (Inr u, w1) \<Rightarrow>
                         (case Curl_statement_run p r 1 2 0 w1 of
                            (Inl e, w2) \<Rightarrow> (Inl e, w2)
                          | (Inr u, w2) \<Rightarrow>
                              (case Curl_statement_run p r 2 0 1 w2 of
                                 (Inl e, w3) \<Rightarrow> (Inl e, w3)
                               | (Inr u, w3) \<Rightarrow> (Inr r, w3)))))))"

fun Laplacian_loop_run ::
  "nat \<Rightarrow> nat \<Rightarrow> ('a, 'e) differentiator list \<Rightarrow> ('a::plus, ('a, 'e) Laplacian) world
     \<Rightarrow> ('e error + nat) \<times> ('a, ('a, 'e) Laplacian) world" where
  "Laplacian_loop_run p r [] w = (Inr r, w)"
| "Laplacian_loop_run p r (part # ps) w =
     (case call part (NdArray (arrays w ! p)) of
        Inl e \<Rightarrow> (Inl e, w)
      | Inr v \<Rightarrow>
          (case iadd_at (Whole r) (arrays w ! r) v w of
             (Inl e, w') \<Rightarrow> (Inl e, w')
           | (Inr u, w') \<Rightarrow> Laplacian_loop_run p r ps w'))"

definition Laplacian_run ::
  "('a::{zero,plus}, ('a, 'e) Laplacian) world \<Rightarrow> nat
     \<Rightarrow> ('e error + nat) \<times> ('a, ('a, 'e) Laplacian) world" where
  "Laplacian_run w p =
     (case alloc (np_zeros (shape (arrays w ! p))) w of
        (r, w') \<Rightarrow> Laplacian_loop_run p r (parts (self_obj w')) w')"

text \<open>
  What a call may change: nothing of the operator object, and none of the array objects
  that existed before it (the first \<open>n\<close> addresses).
\<close>

definition untouched :: "nat \<Rightarrow> ('a, 'o) world \<Rightarrow> ('a, 'o) world \<Rightarrow> bool" where
  "untouched n w w' =
     (self_obj w' = self_obj w \<and> take n (arrays w') = take n (arrays w))"

section \<open>A differentiator for the worked examples\<close>

text \<open>It multiplies every element by \<open>c\<close> and refuses what is not an array.\<close>

definition scaling :: "int \<Rightarrow> (int, unit) differentiator" where
  "scaling c x = (case x of NdArray a \<Rightarrow> Inr (a\<lparr>data := map ((*) c) (data a)\<rparr>) | _ \<Rightarrow> Inl ())"

section \<open>Facts about construction\<close>

lemma comprehension_ok:
  "(\<And>k. k \<in> set ks \<Longrightarrow> mk k = Inr (d k)) \<Longrightarrow> comprehension mk ks = Inr (map d ks)"
  by (induction ks) simp_all

lemma comprehension_Inr:
  "comprehension mk ks = Inr ds \<Longrightarrow>
     length ds = length ks \<and> (\<forall>i < length ks. mk (ks ! i) = Inr (ds ! i))"
proof (induction ks arbitrary: ds)
  case Nil
  then show ?case by simp
next
  case (Cons k ks)
  then show ?case
    by (auto split: sum.splits simp: nth_Cons split: nat.splits)
qed

lemma h_call_pop [simp]: "h_call harr (kw\<lparr>kw_h := x\<rparr>) k = h_call harr kw k"
  by (simp add: h_call_def)

lemma coords_call_pop [simp]:
  "coords_call c (kw\<lparr>kw_h := x\<rparr>) k = coords_call c kw k"
  "coords_call c (kw\<lparr>kw_coords := y\<rparr>) k = coords_call c kw k"
  by (simp_all add: coords_call_def)

lemma VectorOperator_init_total:
  assumes "\<And>args. FinDiff args = Inr (D args)"
  shows "VectorOperator_init FinDiff kw =
           Inr \<lparr>attr_h = map_option wrap_in_ndarray (kw_h kw), ndims = inferred_ndims kw,
                components = built_components D kw\<rparr>"
proof -
  have c: "comprehension (\<lambda>k. FinDiff (g k)) ks = Inr (map (\<lambda>k. D (g k)) ks)" for g ks
    by (rule comprehension_ok) (simp add: assms)
  show ?thesis
    by (cases "kw_h kw"; cases "kw_coords kw")
      (simp_all add: VectorOperator_init_def init_h_def init_coords_def new_object_def
        inferred_ndims_def built_components_def nd_len_def wrap_in_ndarray_def c Let_def)
qed

section \<open>Claims about construction\<close>

text \<open>
  Claim C3. A \<open>VectorOperator\<close> constructed with \<open>coords\<close> takes \<open>ndims\<close> from the structure
  of \<open>coords\<close>: the first entry of the shape for one array of more than one axis, 1 for one
  one-dimensional array, the length for a sequence of per-axis arrays; and it builds exactly
  \<open>ndims\<close> differentiators, the one at position \<open>k\<close> being what the call
  \<open>FinDiff((k,), coords=coords, **kwargs)\<close> returned, for \<open>k = 0, ..., ndims - 1\<close>. Only the
  calls that the constructor makes are assumed to return: these \<open>ndims\<close> calls and, when
  \<open>h\<close> was given as well, the calls \<open>FinDiff((k, h[k]), coords=coords, **kwargs)\<close> of the first
  branch.
\<close>

theorem coords_ndims_inference:
  assumes coords: "kw_coords kw = Some c"
    and h_calls: "\<forall>hv. kw_h kw = Some hv \<longrightarrow> (\<forall>k<length hv.
           FinDiff \<lparr>fd_axis = k, fd_spacing = Some (hv ! k), fd_order = None,
                    fd_coords = Some c, fd_kwargs = kw_rest kw\<rparr> = Inr (dh k))"
    and c_calls: "\<forall>k<get_dimension c.
           FinDiff \<lparr>fd_axis = k, fd_spacing = None, fd_order = None,
                    fd_coords = Some c, fd_kwargs = kw_rest kw\<rparr> = Inr (d k)"
  shows "VectorOperator_init FinDiff kw =
           Inr \<lparr>attr_h = map_option wrap_in_ndarray (kw_h kw), ndims = Some (get_dimension c),
                components = Some (map d [0..<get_dimension c])\<rparr>
     \<and> (\<forall>a. c = CoordsArray a \<and> 1 < length (shape a) \<longrightarrow> get_dimension c = shape a ! 0)
     \<and> (\<forall>a. c = CoordsArray a \<and> length (shape a) = 1 \<longrightarrow> get_dimension c = 1)
     \<and> (\<forall>cs. c = CoordsSeq cs \<longrightarrow> get_dimension c = length cs)"
proof -
  let ?n = "get_dimension c"
  have second: "comprehension
      (\<lambda>k. FinDiff (coords_call c kw' k)) [0..<?n] = Inr (map d [0..<?n])"
    if "kw_rest kw' = kw_rest kw" for kw' :: "'a kwargs"
    by (rule comprehension_ok) (use c_calls that in \<open>simp add: coords_call_def\<close>)
  have init: "VectorOperator_init FinDiff kw =
           Inr \<lparr>attr_h = map_option wrap_in_ndarray (kw_h kw), ndims = Some ?n,
                components = Some (map d [0..<?n])\<rparr>"
  proof (cases "kw_h kw")
    case None
    then show ?thesis
      using coords second [of "kw\<lparr>kw_coords := None\<rparr>"]
      by (simp add: VectorOperator_init_def init_h_def init_coords_def new_object_def Let_def)
  next
    case (Some hv)
    have first: "comprehension
        (\<lambda>k. FinDiff (h_call (wrap_in_ndarray hv) (kw\<lparr>kw_h := None\<rparr>) k)) [0..<length hv]
        = Inr (map dh [0..<length hv])"
      by (rule comprehension_ok)
        (use h_calls Some coords in \<open>simp add: h_call_def wrap_in_ndarray_def\<close>)
    show ?thesis
      using Some coords first second [of "kw\<lparr>kw_h := None, kw_coords := None\<rparr>"]
      by (simp add: VectorOperator_init_def init_h_def init_coords_def new_object_def
          nd_len_def wrap_in_ndarray_def Let_def)
  qed
  show ?thesis
    using init by auto
qed

text \<open>
  Claim C3 at \<open>coords = [x, y]\<close> with \<open>acc = 4\<close>, for a \<open>FinDiff\<close> that refuses every other call
  and returns a differentiator that depends on the axis: two axes, and the differentiators
  of axis 0 and axis 1 in this order.
\<close>

theorem coords_ndims_inference_witness:
  "VectorOperator_init
      (\<lambda>args. if fd_spacing args = None \<and> fd_order args = None
                  \<and> fd_coords args = Some (CoordsSeq [\<lparr>shape = [2], data = [0, 1]\<rparr>,
                                                      \<lparr>shape = [3], data = [0, 2, 5]\<rparr>])
                  \<and> fd_kwargs args = [(''acc'', 4)]
               then Inr (scaling (int (fd_axis args) + 7)) else Inl ())
      \<lparr>kw_h = None,
       kw_coords = Some (CoordsSeq [\<lparr>shape = [2], data = [0, 1]\<rparr>,
                                     \<lparr>shape = [3], data = [0, 2, 5]\<rparr>]),
       kw_rest = [(''acc'', 4)]\<rparr>
   = Inr \<lparr>attr_h = None, ndims = Some 2, components = Some [scaling 7, scaling 8]\<rparr>"
proof -
  let ?c = "CoordsSeq [\<lparr>shape = [2], data = [0, 1 :: int]\<rparr>, \<lparr>shape = [3], data = [0, 2, 5]\<rparr>]"
  let ?kw = "\<lparr>kw_h = None, kw_coords = Some ?c, kw_rest = [(''acc'', 4)]\<rparr>"
  let ?F = "\<lambda>args :: int findiff_args.
      if fd_spacing args = None \<and> fd_order args = None \<and> fd_coords args = Some ?c
         \<and> fd_kwargs args = [(''acc'', 4)]
      then Inr (scaling (int (fd_axis args) + 7)) else (Inl () :: unit + (int, unit) differentiator)"
  have c_calls: "\<forall>k<get_dimension ?c.
           ?F \<lparr>fd_axis = k, fd_spacing = None, fd_order = None,
                fd_coords = Some ?c, fd_kwargs = kw_rest ?kw\<rparr> = Inr (scaling (int k + 7))"
    by simp
  have h_calls: "\<forall>hv. kw_h ?kw = Some hv \<longrightarrow> (\<forall>k<length hv.
           ?F \<lparr>fd_axis = k, fd_spacing = Some (hv ! k), fd_order = None,
                fd_coords = Some ?c, fd_kwargs = kw_rest ?kw\<rparr> = Inr (scaling 0))"
    by simp
  show ?thesis
    using coords_ndims_inference [of ?kw ?c ?F "\<lambda>k. scaling 0" "\<lambda>k. scaling (int k + 7)",
        OF _ h_calls c_calls]
    by (simp add: numeral_2_eq_2)
qed

text \<open>
  Claim C4. Whenever the base constructor finishes with \<open>ndims = n\<close>, constructing \<open>Curl\<close>
  succeeds if and only if \<open>n = 3\<close> (and then returns the object the base constructor built),
  and for \<open>n \<noteq> 3\<close> it raises the \<open>ValueError\<close> of \<open>Curl.__init__\<close>.
\<close>

theorem Curl_init_guard:
  assumes "VectorOperator_init FinDiff kw = Inr self" and "ndims self = Some n"
  shows "((\<exists>curl. Curl_init FinDiff kw = Inr curl) \<longleftrightarrow> n = 3)
     \<and> (n = 3 \<longrightarrow> Curl_init FinDiff kw = Inr self)
     \<and> (n \<noteq> 3 \<longrightarrow> Curl_init FinDiff kw = Inl (Raise ValueError))"
  using assms by (simp add: Curl_init_def)

text \<open>Claim C4 at \<open>Curl(h=[1, 1])\<close>: two axes, so the \<open>ValueError\<close> is raised.\<close>

theorem Curl_init_guard_witness:
  "Curl_init (\<lambda>args. Inr (\<lambda>f. Inl (fd_axis args)))
      \<lparr>kw_h = Some [1, 1::int], kw_coords = None, kw_rest = []\<rparr> = Inl (Raise ValueError)"
proof -
  let ?F = "\<lambda>args :: int findiff_args. (Inr (\<lambda>f. Inl (fd_axis args)) :: nat + (int, nat) differentiator)"
  let ?kw = "\<lparr>kw_h = Some [1, 1::int], kw_coords = None, kw_rest = []\<rparr>"
  have "VectorOperator_init ?F ?kw =
      Inr \<lparr>attr_h = map_option wrap_in_ndarray (kw_h ?kw), ndims = inferred_ndims ?kw,
           components = built_components (\<lambda>args. (\<lambda>f. Inl (fd_axis args))) ?kw\<rparr>"
    by (rule VectorOperator_init_total) simp
  moreover have "inferred_ndims ?kw = Some 2"
    by (simp add: inferred_ndims_def)
  ultimately show ?thesis
    using Curl_init_guard [of ?F ?kw _ 2] by simp
qed

text \<open>
  Claim C1 requires an exception when neither \<open>h\<close> nor \<open>coords\<close> is given, and the docstrings
  say that exactly one of them must be specified. The constructor has two independent
  \<open>if\<close> blocks and nothing for the remaining cases: \<open>Gradient()\<close> and \<open>Divergence()\<close> return
  an object on which no attribute was assigned, with no exception, even with a \<open>FinDiff\<close>
  that would refuse every call.
\<close>

theorem VectorOperator_init_accepts_no_grid:
  "(Gradient_init (\<lambda>args. Inl ()) \<lparr>kw_h = None, kw_coords = None, kw_rest = []\<rparr>
      :: unit error + (int, unit) VectorOperator) = Inr new_object
   \<and> (Divergence_init (\<lambda>args. Inl ()) \<lparr>kw_h = None, kw_coords = None, kw_rest = []\<rparr>
      :: unit error + (int, unit) VectorOperator) = Inr new_object"
  by (simp add: Gradient_init_def Divergence_init_def VectorOperator_init_def init_h_def
      init_coords_def)

lemma call_not_Raise: "call d x \<noteq> Inl (Raise e)"
  by (simp add: call_def split: sum.splits)

lemma nd_iadd_not_Raise: "nd_iadd a b \<noteq> Inl (Raise e)"
  by (simp add: nd_iadd_def split: option.splits)

lemma np_zeros_like_not_Raise: "np_zeros_like f \<noteq> Inl (Raise e)"
  by (simp add: np_zeros_like_def np_array_def split: pyobj.splits sum.splits list.splits)

lemma Laplacian_loop_not_Raise: "Laplacian_loop f ps acc \<noteq> Inl (Raise e)"
  by (induction ps arbitrary: acc)
    (auto simp: call_not_Raise nd_iadd_not_Raise split: sum.splits)

section \<open>Claims about application\<close>

text \<open>
  Claim C10. \<open>Laplacian.__call__\<close> validates nothing: whatever \<open>f\<close> is (an array of any rank,
  a list, a number) and whatever the differentiators are, no exception comes from a \<open>raise\<close>
  statement of its own; an exception can only come out of NumPy (\<open>Runtime\<close>) or out of a
  differentiator (\<open>External\<close>).
\<close>

theorem Laplacian_call_no_validation: "Laplacian_call self f \<noteq> Inl (Raise e)"
  by (auto simp: Laplacian_call_def np_zeros_like_not_Raise Laplacian_loop_not_Raise
      split: sum.splits)

text \<open>
  Claim C2 requires a \<open>ValueError\<close> for every \<open>f\<close> that is not of rank \<open>ndims + 1\<close> with a first
  axis of length \<open>ndims\<close>. The test joins the two conditions with \<open>and\<close>, so it only fires when
  both fail: \<open>Divergence(h=[1, 1])\<close> applied to an array of shape \<open>(3, 2, 2)\<close> (three
  components on a grid of two axes; the differentiators here return their argument) raises
  nothing and returns the sum of the first two components.
\<close>

theorem Divergence_call_accepts_wrong_leading_axis:
  "(case Divergence_init (\<lambda>args. Inr (\<lambda>x. case x of NdArray a \<Rightarrow> Inr a | _ \<Rightarrow> Inl ()))
           \<lparr>kw_h = Some [1, 1], kw_coords = None, kw_rest = []\<rparr> of
      Inl e \<Rightarrow> None
    | Inr dv \<Rightarrow>
        Some (Divergence_call dv
           (NdArray \<lparr>shape = [3, 2, 2], data = [1, 2, 3, 4, 5, 6, 7, 8, 9, 10, 11, 12 :: int]\<rparr>)))
   = Some (Inr \<lparr>shape = [2, 2], data = [6, 8, 10, 12]\<rparr>)"
  by code_simp

lemma nd_iadd_same_shape:
  "shape b = shape a \<Longrightarrow> nd_iadd a b = Inr (a\<lparr>data := map2 (+) (data a) (data b)\<rparr>)"
  by (simp add: nd_iadd_def broadcast_to_def)

lemma nd_getitem_in_range:
  "shape a = n # s \<Longrightarrow> k < n \<Longrightarrow> nd_getitem a k = Inr (subarray a k)"
  by (simp add: nd_getitem_def)

lemma get_component_in_range:
  "components self = Some ds \<Longrightarrow> k < length ds \<Longrightarrow> get_component self k = Inr (ds ! k)"
  by (simp add: get_component_def)

lemma Divergence_loop_sum:
  assumes "components self = Some ds" and "shape f = n # s"
    and "\<And>k. k \<in> set ks \<Longrightarrow> k < n \<and> k < length ds
           \<and> (ds ! k) (NdArray (subarray f k)) = Inr (g k) \<and> shape (g k) = s"
    and "shape result = s"
  shows "Divergence_loop self f ks result =
     Inr \<lparr>shape = s,
          data = foldl (\<lambda>acc d. map2 (+) acc d) (data result) (map (\<lambda>k. data (g k)) ks)\<rparr>"
  using assms(3,4)
proof (induction ks arbitrary: result)
  case Nil
  then show ?case by simp
next
  case (Cons k ks)
  have k: "k < n" "k < length ds" "(ds ! k) (NdArray (subarray f k)) = Inr (g k)"
    "shape (g k) = s"
    using Cons.prems(1) [of k] by simp_all
  have step: "nd_iadd result (g k) = Inr (result\<lparr>data := map2 (+) (data result) (data (g k))\<rparr>)"
    by (rule nd_iadd_same_shape) (simp add: k Cons.prems(2))
  have rest: "Divergence_loop self f ks (result\<lparr>data := map2 (+) (data result) (data (g k))\<rparr>) =
     Inr \<lparr>shape = s,
          data = foldl (\<lambda>acc d. map2 (+) acc d)
                   (data (result\<lparr>data := map2 (+) (data result) (data (g k))\<rparr>))
                   (map (\<lambda>k. data (g k)) ks)\<rparr>"
    by (rule Cons.IH) (simp_all add: Cons.prems)
  have c: "call (ds ! k) (NdArray (subarray f k)) = Inr (g k)"
    by (simp add: call_def k(3))
  show ?case
    by (simp add: get_component_in_range [OF assms(1) k(2)]
        nd_getitem_in_range [OF assms(2) k(1)] c step rest)
qed

text \<open>
  Claim C7. For a vector field \<open>f\<close> of shape \<open>(ndims, ...)\<close> whose components the differentiators
  map to arrays of the component shape, \<open>Divergence.__call__\<close> returns the array of the
  component shape obtained by starting from zeros and adding \<open>d\<^sub>k(f[k])\<close> element by element
  for \<open>k = 0, 1, ..., ndims - 1\<close>, in that order (a left fold, no reassociation).
\<close>

theorem Divergence_call_accumulates:
  assumes "ndims self = Some n" and "components self = Some ds" and "length ds = n"
    and "shape f = n # s"
    and "\<forall>k<n. (ds ! k) (NdArray (subarray f k)) = Inr (g k) \<and> shape (g k) = s"
  shows "Divergence_call self (NdArray f) =
     Inr \<lparr>shape = s,
          data = foldl (\<lambda>acc d. map2 (+) acc d) (replicate (prod_list s) 0)
                   (map (\<lambda>k. data (g k)) [0..<n])\<rparr>"
proof -
  have "Divergence_loop self f [0..<n] (np_zeros (tl (shape f))) =
     Inr \<lparr>shape = s,
          data = foldl (\<lambda>acc d. map2 (+) acc d) (data (np_zeros (tl (shape f)) :: 'a ndarray))
                   (map (\<lambda>k. data (g k)) [0..<n])\<rparr>"
    by (rule Divergence_loop_sum [OF assms(2,4)]) (simp_all add: assms np_zeros_def)
  then show ?thesis
    by (simp add: Divergence_call_def assms shape_test_def np_zeros_def)
qed

lemma Gradient_loop_collect:
  assumes "components self = Some ds"
    and "\<And>k. k \<in> set ks \<Longrightarrow> k < length ds \<and> (ds ! k) (NdArray f) = Inr (g k)"
  shows "Gradient_loop self f ks acc = Inr (acc @ map g ks)"
  using assms(2)
proof (induction ks arbitrary: acc)
  case Nil
  then show ?case by simp
next
  case (Cons k ks)
  have k: "k < length ds" "(ds ! k) (NdArray f) = Inr (g k)"
    using Cons.prems [of k] by simp_all
  have c: "call (ds ! k) (NdArray f) = Inr (g k)"
    by (simp add: call_def k(2))
  have "Gradient_loop self f ks (acc @ [g k]) = Inr ((acc @ [g k]) @ map g ks)"
    by (rule Cons.IH) (simp add: Cons.prems)
  then show ?case
    by (simp add: get_component_in_range [OF assms(1) k(1)] c)
qed

lemma concat_block:
  "(\<And>x. x \<in> set xs \<Longrightarrow> length x = m) \<Longrightarrow> k < length xs \<Longrightarrow>
     take m (drop (k * m) (concat xs)) = xs ! k"
proof (induction xs arbitrary: k)
  case Nil
  then show ?case by simp
next
  case (Cons x xs)
  have lx: "length x = m" using Cons.prems(1) by simp
  show ?case
  proof (cases k)
    case 0
    then show ?thesis by (simp add: lx)
  next
    case (Suc j)
    have "take m (drop (j * m) (concat xs)) = xs ! j"
      by (rule Cons.IH) (use Cons.prems Suc in simp_all)
    then show ?thesis by (simp add: Suc lx)
  qed
qed

lemma np_array_same_shape:
  "xs \<noteq> [] \<Longrightarrow> \<forall>y\<in>set xs. shape y = s \<Longrightarrow>
     np_array xs = Inr \<lparr>shape = length xs # s, data = concat (map data xs)\<rparr>"
  by (cases xs) (auto simp: np_array_def list_all_iff)

text \<open>
  Claim C6. For an array \<open>f\<close> of rank \<open>ndims\<close> that the differentiators map to arrays of the
  shape of \<open>f\<close>, \<open>Gradient.__call__\<close> returns the stack of \<open>d\<^sub>0(f), d\<^sub>1(f), ...\<close> in this
  order: an array of rank \<open>ndims + 1\<close> whose first axis has length \<open>ndims\<close> and whose \<open>k\<close>-th
  block is \<open>d\<^sub>k(f)\<close>.
\<close>

theorem Gradient_call_stacks:
  assumes "ndims self = Some n" and "components self = Some ds" and "length ds = n"
    and "length (shape f) = n"
    and "\<forall>k<n. (ds ! k) (NdArray f) = Inr (g k) \<and> shape (g k) = shape f \<and> wf_array (g k)"
  shows "\<exists>r. Gradient_call self (NdArray f) = Inr r
     \<and> r = \<lparr>shape = n # shape f, data = concat (map (\<lambda>k. data (g k)) [0..<n])\<rparr>
     \<and> (\<forall>k<n. subarray r k = g k)"
proof -
  let ?r = "\<lparr>shape = n # shape f, data = concat (map (\<lambda>k. data (g k)) [0..<n])\<rparr>"
  have loop: "Gradient_loop self f [0..<n] [] = Inr ([] @ map g [0..<n])"
    by (rule Gradient_loop_collect [OF assms(2)]) (simp add: assms)
  have stack: "np_array (map g [0..<n]) = Inr ?r"
  proof (cases n)
    case 0
    then show ?thesis using assms(4) by (simp add: np_array_def)
  next
    case (Suc m)
    then have "map g [0..<n] \<noteq> []" by simp
    moreover have "\<forall>y\<in>set (map g [0..<n]). shape y = shape f"
      using assms(5) by simp
    ultimately have "np_array (map g [0..<n]) =
        Inr \<lparr>shape = length (map g [0..<n]) # shape f, data = concat (map data (map g [0..<n]))\<rparr>"
      by (rule np_array_same_shape)
    then show ?thesis by (simp add: comp_def)
  qed
  have blocks: "subarray ?r k = g k" if "k < n" for k
  proof -
    have "take (prod_list (shape f)) (drop (k * prod_list (shape f))
            (concat (map (\<lambda>k. data (g k)) [0..<n]))) = map (\<lambda>k. data (g k)) [0..<n] ! k"
      by (rule concat_block) (use assms(5) that in \<open>auto simp: wf_array_def\<close>)
    then show ?thesis
      using that assms(5) by (simp add: subarray_def)
  qed
  show ?thesis
    using loop stack blocks by (simp add: Gradient_call_def assms)
qed

text \<open>Claim C7 on a two-axis operator and a field with components \<open>[1, 2]\<close> and \<open>[3, 4]\<close>.\<close>

theorem Divergence_call_accumulates_witness:
  "Divergence_call
     \<lparr>attr_h = None, ndims = Some 2,
      components = Some [\<lambda>x. case x of NdArray a \<Rightarrow> Inr a | _ \<Rightarrow> Inl (),
                         \<lambda>x. case x of NdArray a \<Rightarrow> Inr (a\<lparr>data := map ((*) 10) (data a)\<rparr>)
                                       | _ \<Rightarrow> Inl ()]\<rparr>
     (NdArray \<lparr>shape = [2, 2], data = [1, 2, 3, 4 :: int]\<rparr>)
   = Inr \<lparr>shape = [2], data = [31, 42]\<rparr>"
proof -
  let ?g = "\<lambda>k::nat. if k = 0 then \<lparr>shape = [2::nat], data = [1, 2 :: int]\<rparr>
                     else \<lparr>shape = [2], data = [30, 40]\<rparr>"
  let ?ds = "[\<lambda>x. case x of NdArray a \<Rightarrow> Inr a | _ \<Rightarrow> Inl (),
              \<lambda>x. case x of NdArray a \<Rightarrow> Inr (a\<lparr>data := map ((*) 10) (data a)\<rparr>)
                            | _ \<Rightarrow> Inl ()] :: (int, unit) differentiator list"
  let ?f = "\<lparr>shape = [2, 2], data = [1, 2, 3, 4 :: int]\<rparr>"
  have h: "\<forall>k<2. (?ds ! k) (NdArray (subarray ?f k)) = Inr (?g k) \<and> shape (?g k) = [2]"
    by (simp add: less_2_cases_iff subarray_def)
  show ?thesis
    using Divergence_call_accumulates [of "\<lparr>attr_h = None, ndims = Some 2, components = Some ?ds\<rparr>"
        2 ?ds ?f "[2]" ?g, OF _ _ _ _ h]
    by (simp add: numeral_2_eq_2)
qed

text \<open>Claim C6 on a one-axis operator.\<close>

theorem Gradient_call_stacks_witness:
  "Gradient_call
     \<lparr>attr_h = None, ndims = Some 1,
      components = Some [\<lambda>x. case x of NdArray a \<Rightarrow> Inr (a\<lparr>data := map ((*) 10) (data a)\<rparr>)
                                       | _ \<Rightarrow> Inl ()]\<rparr>
     (NdArray \<lparr>shape = [3], data = [1, 2, 3 :: int]\<rparr>)
   = Inr \<lparr>shape = [1, 3], data = [10, 20, 30]\<rparr>"
proof -
  let ?g = "\<lambda>k::nat. \<lparr>shape = [3::nat], data = [10, 20, 30 :: int]\<rparr>"
  let ?ds = "[\<lambda>x. case x of NdArray a \<Rightarrow> Inr (a\<lparr>data := map ((*) 10) (data a)\<rparr>)
                            | _ \<Rightarrow> Inl ()] :: (int, unit) differentiator list"
  let ?f = "\<lparr>shape = [3], data = [1, 2, 3 :: int]\<rparr>"
  have h: "\<forall>k<1. (?ds ! k) (NdArray ?f) = Inr (?g k) \<and> shape (?g k) = shape ?f \<and> wf_array (?g k)"
    by (simp add: wf_array_def)
  show ?thesis
    using Gradient_call_stacks [of "\<lparr>attr_h = None, ndims = Some 1, components = Some ?ds\<rparr>"
        1 ?ds ?f ?g, OF _ _ _ _ h]
    by simp
qed

lemma bshape_rev_same: "bshape_rev xs xs = Some xs"
  by (induction xs) simp_all

lemma broadcast_shapes_same: "broadcast_shapes s s = Some s"
  by (simp add: broadcast_shapes_def bshape_rev_same)

lemma nd_sub_same_shape:
  "shape a = s \<Longrightarrow> shape b = s \<Longrightarrow>
     nd_sub a b = Inr \<lparr>shape = s, data = map2 (-) (data a) (data b)\<rparr>"
  by (simp add: nd_sub_def broadcast_shapes_same broadcast_to_def)

lemma add_zeros:
  fixes xs :: "'a::{zero,plus} list"
  assumes "\<And>x::'a. 0 + x = x"
  shows "length xs = m \<Longrightarrow> map2 (+) (replicate m 0) xs = xs"
proof (induction xs arbitrary: m)
  case Nil
  then show ?case by simp
next
  case (Cons x xs)
  then obtain j where "m = Suc j" "length xs = j" by (cases m) auto
  then show ?case using Cons.IH [of j] by (simp add: assms)
qed

lemma Curl_statement_block:
  fixes self :: "('a::{zero,plus,minus}, 'e) VectorOperator"
  assumes zero: "\<And>x::'a. 0 + x = x"
    and comps: "components self = Some ds" "p < length ds" "q < length ds"
    and f: "shape f = n # s" "p < n" "q < n"
    and a: "(ds ! p) (NdArray (subarray f q)) = Inr a" "shape a = s"
           "length (data a) = prod_list s"
    and b: "(ds ! q) (NdArray (subarray f p)) = Inr b" "shape b = s"
           "length (data b) = prod_list s"
    and res: "shape result = m # s" "i < m"
             "data result = pre @ replicate (prod_list s) 0 @ post"
             "length pre = i * prod_list s"
  shows "Curl_statement self f i p q result =
           Inr (result\<lparr>data := pre @ map2 (-) (data a) (data b) @ post\<rparr>)"
proof -
  let ?P = "prod_list s"
  have target: "nd_getitem result i = Inr \<lparr>shape = s, data = replicate ?P 0\<rparr>"
    using res by (simp add: nd_getitem_def subarray_def)
  have fq: "nd_getitem f q = Inr (subarray f q)" and fp: "nd_getitem f p = Inr (subarray f p)"
    using f by (simp_all add: nd_getitem_def)
  have ca: "call (ds ! p) (NdArray (subarray f q)) = Inr a"
    and cb: "call (ds ! q) (NdArray (subarray f p)) = Inr b"
    using a(1) b(1) by (simp_all add: call_def)
  have sub: "nd_sub a b = Inr \<lparr>shape = s, data = map2 (-) (data a) (data b)\<rparr>"
    using a(2) b(2) by (rule nd_sub_same_shape)
  have len: "length (map2 (-) (data a) (data b)) = ?P"
    using a(3) b(3) by simp
  have add: "nd_iadd \<lparr>shape = s, data = replicate ?P 0\<rparr>
                 \<lparr>shape = s, data = map2 (-) (data a) (data b)\<rparr>
             = Inr \<lparr>shape = s, data = map2 (-) (data a) (data b)\<rparr>"
    using add_zeros [OF zero len] by (simp add: nd_iadd_def broadcast_to_def)
  have store: "nd_setitem result i \<lparr>shape = s, data = map2 (-) (data a) (data b)\<rparr>
      = result\<lparr>data := pre @ map2 (-) (data a) (data b) @ post\<rparr>"
    using res by (simp add: nd_setitem_def)
  show ?thesis
    by (simp add: Curl_statement_def target get_component_def comps fq fp ca cb sub add store)
qed

text \<open>
  Claim C5. For a field \<open>f\<close> of three components whose six derivatives the differentiators
  return at the component shape, \<open>Curl.__call__\<close> returns an array \<open>r\<close> of the shape of \<open>f\<close> with
  \<open>r[0] = d\<^sub>1(f[2]) - d\<^sub>2(f[1])\<close>, \<open>r[1] = d\<^sub>2(f[0]) - d\<^sub>0(f[2])\<close> and
  \<open>r[2] = d\<^sub>0(f[1]) - d\<^sub>1(f[0])\<close>. The code adds each difference to a block of zeros, so the
  elements are assumed to satisfy \<open>0 + x = x\<close>; \<open>G p q\<close> stands for \<open>d\<^sub>p(f[q])\<close>.
\<close>

theorem Curl_call_components:
  fixes self :: "('a::{zero,plus,minus}, 'e) VectorOperator"
  assumes zero: "\<And>x::'a. 0 + x = x"
    and self: "ndims self = Some 3" "components self = Some ds" "length ds = 3"
    and f: "shape f = 3 # s"
    and d: "\<forall>p<3. \<forall>q<3. p \<noteq> q \<longrightarrow>
              (ds ! p) (NdArray (subarray f q)) = Inr (G p q) \<and> shape (G p q) = s
              \<and> wf_array (G p q)"
  shows "\<exists>r. Curl_call self (NdArray f) = Inr r
     \<and> shape r = shape f
     \<and> subarray r 0 = \<lparr>shape = s, data = map2 (-) (data (G 1 2)) (data (G 2 1))\<rparr>
     \<and> subarray r 1 = \<lparr>shape = s, data = map2 (-) (data (G 2 0)) (data (G 0 2))\<rparr>
     \<and> subarray r 2 = \<lparr>shape = s, data = map2 (-) (data (G 0 1)) (data (G 1 0))\<rparr>"
proof -
  let ?P = "prod_list s"
  let ?D0 = "map2 (-) (data (G 1 2)) (data (G 2 1))"
  let ?D1 = "map2 (-) (data (G 2 0)) (data (G 0 2))"
  let ?D2 = "map2 (-) (data (G 0 1)) (data (G 1 0))"
  let ?z = "replicate ?P (0::'a)"
  let ?r0 = "np_zeros (shape f) :: 'a ndarray"
  have G: "(ds ! p) (NdArray (subarray f q)) = Inr (G p q)" "shape (G p q) = s"
    "length (data (G p q)) = ?P" if "p < 3" "q < 3" "p \<noteq> q" for p q
    using d that by (simp_all add: wf_array_def)
  have len: "length ?D0 = ?P" "length ?D1 = ?P" "length ?D2 = ?P"
    by (simp_all add: G)
  have r0: "shape ?r0 = 3 # s" "data ?r0 = [] @ ?z @ (?z @ ?z)"
    by (simp_all add: np_zeros_def f replicate_add [symmetric])
  have s0: "Curl_statement self f 0 1 2 ?r0 = Inr (?r0\<lparr>data := [] @ ?D0 @ (?z @ ?z)\<rparr>)"
    by (rule Curl_statement_block [OF zero self(2) _ _ f _ _ G(1) G(2) G(3) G(1) G(2) G(3) r0(1) _ r0(2)])
      (simp_all add: self)
  let ?r1 = "?r0\<lparr>data := [] @ ?D0 @ (?z @ ?z)\<rparr>"
  have r1: "shape ?r1 = 3 # s" "data ?r1 = ?D0 @ ?z @ ?z"
    by (simp_all add: r0)
  have s1: "Curl_statement self f 1 2 0 ?r1 = Inr (?r1\<lparr>data := ?D0 @ ?D1 @ ?z\<rparr>)"
    using len
    by (intro Curl_statement_block [OF zero self(2) _ _ f _ _ G(1) G(2) G(3) G(1) G(2) G(3) r1(1) _ r1(2)])
      (simp_all add: self len)
  let ?r2 = "?r1\<lparr>data := ?D0 @ ?D1 @ ?z\<rparr>"
  have r2: "shape ?r2 = 3 # s" "data ?r2 = (?D0 @ ?D1) @ ?z @ []"
    by (simp_all add: r0)
  have s2: "Curl_statement self f 2 0 1 ?r2 = Inr (?r2\<lparr>data := (?D0 @ ?D1) @ ?D2 @ []\<rparr>)"
    using len
    by (intro Curl_statement_block [OF zero self(2) _ _ f _ _ G(1) G(2) G(3) G(1) G(2) G(3) r2(1) _ r2(2)])
      (simp_all add: self len)
  let ?r = "?r2\<lparr>data := (?D0 @ ?D1) @ ?D2 @ []\<rparr>"
  have run: "Curl_call self (NdArray f) = Inr ?r"
    using s0 s1 s2 by (simp add: Curl_call_def self f shape_test_def)
  have shape: "shape ?r = shape f"
    by (simp add: np_zeros_def)
  have b0: "subarray ?r 0 = \<lparr>shape = s, data = ?D0\<rparr>"
    using len by (simp add: subarray_def np_zeros_def f)
  have b1: "subarray ?r 1 = \<lparr>shape = s, data = ?D1\<rparr>"
    using len by (simp add: subarray_def np_zeros_def f)
  have b2: "subarray ?r 2 = \<lparr>shape = s, data = ?D2\<rparr>"
    using len by (simp add: subarray_def np_zeros_def f)
  show ?thesis
    using run shape b0 b1 b2 by blast
qed

text \<open>Claim C5 on the field with components \<open>[1, 2]\<close>, \<open>[3, 4]\<close>, \<open>[5, 6]\<close>.\<close>

theorem Curl_call_components_witness:
  "\<exists>r. Curl_call \<lparr>attr_h = None, ndims = Some 3,
                   components = Some [scaling 1, scaling 10, scaling 100]\<rparr>
          (NdArray \<lparr>shape = [3, 2], data = [1, 2, 3, 4, 5, 6]\<rparr>) = Inr r
     \<and> shape r = [3, 2]
     \<and> subarray r 0 = \<lparr>shape = [2], data = [- 250, - 340]\<rparr>
     \<and> subarray r 1 = \<lparr>shape = [2], data = [95, 194]\<rparr>
     \<and> subarray r 2 = \<lparr>shape = [2], data = [- 7, - 16]\<rparr>"
proof -
  let ?f = "\<lparr>shape = [3, 2], data = [1, 2, 3, 4, 5, 6 :: int]\<rparr>"
  let ?ds = "[scaling 1, scaling 10, scaling 100]"
  let ?G = "\<lambda>p q. \<lparr>shape = [2::nat], data = map ((*) (10 ^ p)) (data (subarray ?f q))\<rparr>"
  have d: "\<forall>p<3. \<forall>q<3. p \<noteq> q \<longrightarrow>
              (?ds ! p) (NdArray (subarray ?f q)) = Inr (?G p q) \<and> shape (?G p q) = [2]
              \<and> wf_array (?G p q)"
    by (simp add: numeral_3_eq_3 less_Suc_eq scaling_def subarray_def wf_array_def)
  have z: "\<And>x::int. 0 + x = x" by simp
  show ?thesis
    using Curl_call_components [of "\<lparr>attr_h = None, ndims = Some 3, components = Some ?ds\<rparr>"
        ?ds ?f "[2]" ?G, OF z _ _ _ _ d]
    by (simp add: subarray_def)
qed

lemma Laplacian_loop_sum:
  fixes f :: "'a::plus pyobj"
  assumes "\<And>k. k < length ps \<Longrightarrow> (ps ! k) f = Inr (g k) \<and> shape (g k) = s"
    and "shape laplace_f = s"
  shows "Laplacian_loop f ps laplace_f =
     Inr \<lparr>shape = s,
          data = foldl (\<lambda>acc d. map2 (+) acc d) (data laplace_f)
                   (map (\<lambda>k. data (g k)) [0..<length ps])\<rparr>"
  using assms
proof (induction ps arbitrary: laplace_f g)
  case Nil
  then show ?case by simp
next
  case (Cons part ps)
  have p: "part f = Inr (g 0)" "shape (g 0) = s"
    using Cons.prems(1) [of 0] by simp_all
  have c: "call part f = Inr (g 0)"
    by (simp add: call_def p(1))
  have step: "nd_iadd laplace_f (g 0) = Inr (laplace_f\<lparr>data := map2 (+) (data laplace_f) (data (g 0))\<rparr>)"
    by (rule nd_iadd_same_shape) (simp add: p Cons.prems(2))
  have tail: "(ps ! k) f = Inr ((g \<circ> Suc) k) \<and> shape ((g \<circ> Suc) k) = s"
    if "k < length ps" for k
    using Cons.prems(1) [of "Suc k"] that by simp
  have rest: "Laplacian_loop f ps (laplace_f\<lparr>data := map2 (+) (data laplace_f) (data (g 0))\<rparr>) =
     Inr \<lparr>shape = s,
          data = foldl (\<lambda>acc d. map2 (+) acc d)
                   (data (laplace_f\<lparr>data := map2 (+) (data laplace_f) (data (g 0))\<rparr>))
                   (map (\<lambda>k. data ((g \<circ> Suc) k)) [0..<length ps])\<rparr>"
    by (rule Cons.IH) (use tail Cons.prems(2) in \<open>simp_all\<close>)
  have idx: "map (\<lambda>k. data (g k)) [0..<length (part # ps)]
      = data (g 0) # map (\<lambda>k. data ((g \<circ> Suc) k)) [0..<length ps]"
    by (simp add: upt_conv_Cons map_Suc_upt [symmetric] del: upt_Suc)
  show ?case
    unfolding idx by (simp add: c step rest)
qed

text \<open>
  Claim C8. \<open>Laplacian(h, acc)\<close>, with \<open>h = [1]\<close> and \<open>acc = 2\<close> for the arguments left out, builds
  one differentiator per entry of \<open>h\<close>, the one at position \<open>k\<close> being what the call
  \<open>FinDiff((k, h[k], 2), acc=acc)\<close> returned; applied to an array \<open>f\<close> that these differentiators
  map to arrays of the shape of \<open>f\<close>, it returns the array of that shape obtained by
  starting from zeros and adding the derivatives element by element in the order of the
  axes. Only these \<open>len(h)\<close> calls of \<open>FinDiff\<close> and these applications are assumed to return.
\<close>

theorem Laplacian_construct_and_apply:
  fixes FinDiff :: "'a::{zero,one,plus} findiff_args \<Rightarrow> 'e + ('a, 'e) differentiator"
  assumes h: "h = (case h_arg of None \<Rightarrow> [1] | Some hv \<Rightarrow> hv)"
    and acc: "acc = (case acc_arg of None \<Rightarrow> 2 | Some a \<Rightarrow> a)"
    and fd: "\<forall>k<length h.
           FinDiff \<lparr>fd_axis = k, fd_spacing = Some (h ! k), fd_order = Some 2,
                    fd_coords = None, fd_kwargs = [(''acc'', acc)]\<rparr> = Inr (d k)"
    and app: "\<forall>k<length h. d k (NdArray f) = Inr (g k) \<and> shape (g k) = shape f"
  shows "\<exists>lap. Laplacian_init FinDiff h_arg acc_arg = Inr lap
     \<and> parts lap = map d [0..<length h]
     \<and> Laplacian_call lap (NdArray f) =
         Inr \<lparr>shape = shape f,
              data = foldl (\<lambda>acc d. map2 (+) acc d) (replicate (prod_list (shape f)) 0)
                       (map (\<lambda>k. data (g k)) [0..<length h])\<rparr>"
proof -
  let ?ps = "map d [0..<length h]"
  have "comprehension (\<lambda>k. FinDiff (laplace_call (wrap_in_ndarray h) acc k)) [0..<length h]
      = Inr ?ps"
    by (rule comprehension_ok) (use fd in \<open>simp add: laplace_call_def wrap_in_ndarray_def\<close>)
  then have init: "Laplacian_init FinDiff h_arg acc_arg = Inr \<lparr>parts = ?ps\<rparr>"
    by (simp add: Laplacian_init_def h [symmetric] acc [symmetric] nd_len_def wrap_in_ndarray_def)
  have "Laplacian_loop (NdArray f) ?ps (np_zeros (shape f)) =
     Inr \<lparr>shape = shape f,
          data = foldl (\<lambda>acc d. map2 (+) acc d) (data (np_zeros (shape f) :: 'a ndarray))
                   (map (\<lambda>k. data (g k)) [0..<length ?ps])\<rparr>"
    by (rule Laplacian_loop_sum) (use app in \<open>simp_all add: np_zeros_def\<close>)
  then have "Laplacian_call \<lparr>parts = ?ps\<rparr> (NdArray f) =
         Inr \<lparr>shape = shape f,
              data = foldl (\<lambda>acc d. map2 (+) acc d) (replicate (prod_list (shape f)) 0)
                       (map (\<lambda>k. data (g k)) [0..<length h])\<rparr>"
    by (simp add: Laplacian_call_def np_zeros_like_def np_zeros_def)
  with init show ?thesis by simp
qed

text \<open>
  Claim C8 at \<open>Laplacian()\<close>, for a \<open>FinDiff\<close> that refuses every call but
  \<open>FinDiff((0, 1, 2), acc=2)\<close>: one axis of spacing 1, derivative order 2, accuracy 2.
\<close>

theorem Laplacian_construct_and_apply_witness:
  "\<exists>lap. Laplacian_init
            (\<lambda>args. if fd_axis args = 0 \<and> fd_spacing args = Some 1 \<and> fd_order args = Some 2
                        \<and> fd_coords args = None \<and> fd_kwargs args = [(''acc'', 2)]
                     then Inr (scaling 2) else Inl ())
            None None = Inr lap
     \<and> parts lap = [scaling 2]
     \<and> Laplacian_call lap (NdArray \<lparr>shape = [3], data = [1, 2, 3]\<rparr>)
         = Inr \<lparr>shape = [3], data = [2, 4, 6]\<rparr>"
proof -
  let ?F = "\<lambda>args :: int findiff_args.
      if fd_axis args = 0 \<and> fd_spacing args = Some 1 \<and> fd_order args = Some 2
         \<and> fd_coords args = None \<and> fd_kwargs args = [(''acc'', 2)]
      then Inr (scaling 2) else (Inl () :: unit + (int, unit) differentiator)"
  let ?f = "\<lparr>shape = [3], data = [1, 2, 3 :: int]\<rparr>"
  let ?g = "\<lambda>k::nat. \<lparr>shape = [3::nat], data = [2, 4, 6 :: int]\<rparr>"
  have fd: "\<forall>k<length [1::int].
           ?F \<lparr>fd_axis = k, fd_spacing = Some ([1] ! k), fd_order = Some 2,
                fd_coords = None, fd_kwargs = [(''acc'', 2)]\<rparr> = Inr (scaling 2)"
    by simp
  have app: "\<forall>k<length [1::int]. scaling 2 (NdArray ?f) = Inr (?g k) \<and> shape (?g k) = shape ?f"
    by (simp add: scaling_def)
  show ?thesis
    using Laplacian_construct_and_apply [of "[1]" None 2 None ?F "\<lambda>k. scaling 2" ?f ?g,
        OF _ _ fd app]
    by (simp add: numeral_3_eq_3)
qed

section \<open>What a call writes\<close>

lemma untouched_refl: "untouched n w w"
  by (simp add: untouched_def)

lemma untouched_trans: "untouched n w w1 \<Longrightarrow> untouched n w1 w2 \<Longrightarrow> untouched n w w2"
  by (simp add: untouched_def)

lemma alloc_untouched:
  "alloc a w = (r, w') \<Longrightarrow> n \<le> length (arrays w) \<Longrightarrow>
     untouched n w w' \<and> r = length (arrays w) \<and> length (arrays w') = Suc r"
  by (auto simp: alloc_def untouched_def)

lemma store_Whole_untouched: "n \<le> r \<Longrightarrow> untouched n w (store (Whole r) v w)"
  by (simp add: store_def untouched_def take_update_cancel)

lemma store_Block_untouched: "n \<le> r \<Longrightarrow> untouched n w (store (Block r i) v w)"
  by (simp add: store_def untouched_def take_update_cancel)

lemma iadd_at_Whole_untouched:
  "iadd_at (Whole r) a b w = (out, w') \<Longrightarrow> n \<le> r \<Longrightarrow> untouched n w w'"
  by (auto simp: iadd_at_def untouched_refl store_Whole_untouched split: sum.splits)

lemma iadd_at_Block_untouched:
  "iadd_at (Block r i) a b w = (out, w') \<Longrightarrow> n \<le> r \<Longrightarrow> untouched n w w'"
  by (auto simp: iadd_at_def untouched_refl store_Block_untouched split: sum.splits)

lemma Divergence_loop_run_untouched:
  fixes w :: "('a::plus, ('a, 'e) VectorOperator) world"
  shows "Divergence_loop_run p r ks w = (out, w') \<Longrightarrow> n \<le> r \<Longrightarrow> untouched n w w'"
proof (induction ks arbitrary: w)
  case Nil
  then show ?case by (simp add: untouched_refl)
next
  case (Cons k ks)
  show ?case
  proof (cases "self_component w k")
    case (Inl e)
    with Cons.prems show ?thesis by (simp add: untouched_refl)
  next
    case d: (Inr d)
    show ?thesis
    proof (cases "nd_getitem (arrays w ! p) k :: 'e error + 'a ndarray")
      case (Inl e)
      with Cons.prems d show ?thesis by (simp add: untouched_refl)
    next
      case fk: (Inr fk)
      show ?thesis
      proof (cases "call d (NdArray fk)")
        case (Inl e)
        with Cons.prems d fk show ?thesis by (simp add: untouched_refl)
      next
        case v: (Inr v)
        obtain o1 :: "'e error + unit" and w1 :: "('a, ('a, 'e) VectorOperator) world"
          where step: "iadd_at (Whole r) (arrays w ! r) v w = (o1, w1)"
          by (rule prod.exhaust)
        have u1: "untouched n w w1"
          using step Cons.prems(2) by (rule iadd_at_Whole_untouched)
        show ?thesis
        proof (cases o1)
          case (Inl e)
          with Cons.prems d fk v step u1 show ?thesis by simp
        next
          case (Inr u)
          with Cons.prems d fk v step have "Divergence_loop_run p r ks w1 = (out, w')"
            by simp
          then have "untouched n w1 w'"
            using Cons.prems(2) by (rule Cons.IH)
          with u1 show ?thesis by (rule untouched_trans)
        qed
      qed
    qed
  qed
qed

lemma Laplacian_loop_run_untouched:
  fixes w :: "('a::plus, ('a, 'e) Laplacian) world"
  shows "Laplacian_loop_run p r ps w = (out, w') \<Longrightarrow> n \<le> r \<Longrightarrow> untouched n w w'"
proof (induction ps arbitrary: w)
  case Nil
  then show ?case by (simp add: untouched_refl)
next
  case (Cons part ps)
  show ?case
  proof (cases "call part (NdArray (arrays w ! p))")
    case (Inl e)
    with Cons.prems show ?thesis by (simp add: untouched_refl)
  next
    case v: (Inr v)
    obtain o1 :: "'e error + unit" and w1 :: "('a, ('a, 'e) Laplacian) world"
      where step: "iadd_at (Whole r) (arrays w ! r) v w = (o1, w1)"
      by (rule prod.exhaust)
    have u1: "untouched n w w1"
      using step Cons.prems(2) by (rule iadd_at_Whole_untouched)
    show ?thesis
    proof (cases o1)
      case (Inl e)
      with Cons.prems v step u1 show ?thesis by simp
    next
      case (Inr u)
      with Cons.prems v step have "Laplacian_loop_run p r ps w1 = (out, w')"
        by simp
      then have "untouched n w1 w'"
        using Cons.prems(2) by (rule Cons.IH)
      with u1 show ?thesis by (rule untouched_trans)
    qed
  qed
qed

lemma Curl_statement_run_untouched:
  fixes w :: "('a::{plus,minus}, ('a, 'e) VectorOperator) world"
  shows "Curl_statement_run p r i a b w = (out, w') \<Longrightarrow> n \<le> r \<Longrightarrow> untouched n w w'"
  by (auto simp: Curl_statement_run_def untouched_refl split: sum.splits
      dest: iadd_at_Block_untouched)

lemma Gradient_run_untouched:
  "Gradient_run w p = (out, w') \<Longrightarrow> untouched (length (arrays w)) w w'"
  by (auto simp: Gradient_run_def untouched_refl split: option.splits if_splits sum.splits
      prod.splits dest: alloc_untouched)

lemma Divergence_run_untouched:
  fixes w :: "('a::{zero,plus}, ('a, 'e) VectorOperator) world"
  assumes "Divergence_run w p = (out, w')"
  shows "untouched (length (arrays w)) w w'"
proof -
  let ?n = "length (arrays w)"
  obtain r w0 where a: "alloc (np_zeros (tl (shape (arrays w ! p)))) w = (r, w0)"
    by (rule prod.exhaust)
  have u0: "untouched ?n w w0" and r: "r = ?n"
    using alloc_untouched [OF a, of ?n] by simp_all
  have "untouched ?n w0 w'" if "Divergence_loop_run p r ks w0 = (out, w')" for ks
    using that by (rule Divergence_loop_run_untouched) (simp add: r)
  with u0 have "untouched ?n w w'" if "Divergence_loop_run p r ks w0 = (out, w')" for ks
    using that untouched_trans by blast
  with assms a show ?thesis
    by (auto simp: Divergence_run_def untouched_refl split: option.splits sum.splits bool.splits)
qed

lemma Laplacian_run_untouched:
  fixes w :: "('a::{zero,plus}, ('a, 'e) Laplacian) world"
  assumes "Laplacian_run w p = (out, w')"
  shows "untouched (length (arrays w)) w w'"
proof -
  let ?n = "length (arrays w)"
  obtain r w0 where a: "alloc (np_zeros (shape (arrays w ! p))) w = (r, w0)"
    by (rule prod.exhaust)
  have u0: "untouched ?n w w0" and r: "r = ?n"
    using alloc_untouched [OF a, of ?n] by simp_all
  from assms a have "Laplacian_loop_run p r (parts (self_obj w0)) w0 = (out, w')"
    by (simp add: Laplacian_run_def)
  then have "untouched ?n w0 w'"
    by (rule Laplacian_loop_run_untouched) (simp add: r)
  with u0 show ?thesis by (rule untouched_trans)
qed

lemma Curl_run_untouched:
  fixes w :: "('a::{zero,plus,minus}, ('a, 'e) VectorOperator) world"
  assumes "Curl_run w p = (out, w')"
  shows "untouched (length (arrays w)) w w'"
proof -
  let ?n = "length (arrays w)"
  obtain r w0 where a: "alloc (np_zeros (shape (arrays w ! p))) w = (r, w0)"
    by (rule prod.exhaust)
  have u0: "untouched ?n w w0" and r: "r = ?n"
    using alloc_untouched [OF a, of ?n] by simp_all
  have st: "untouched ?n v v'" if "Curl_statement_run p r i x y v = (o1, v')"
    for i x y o1 and v v' :: "('a, ('a, 'e) VectorOperator) world"
    using that by (rule Curl_statement_run_untouched) (simp add: r)
  show ?thesis
    using assms a u0
    by (auto simp: Curl_run_def untouched_refl
        split: option.splits sum.splits bool.splits prod.splits
        dest!: st intro: untouched_trans)
qed

text \<open>
  The run on the store computes what the method computes on the value of \<open>f\<close>: the outcome
  is the same exception, or the address of a new array holding the same result.
\<close>

lemma Gradient_run_value:
  "Gradient_run w p = (out, w') \<Longrightarrow>
     (case out of Inl e \<Rightarrow> Inl e | Inr x \<Rightarrow> Inr (arrays w' ! x)) = Gradient_call (self_obj w) (NdArray (arrays w ! p))"
  by (auto simp: Gradient_run_def Gradient_call_def alloc_def
      split: option.splits if_splits sum.splits)

lemma Divergence_loop_run_value:
  fixes w :: "('a::plus, ('a, 'e) VectorOperator) world"
  shows "Divergence_loop_run p r ks w = (out, w') \<Longrightarrow> p \<noteq> r \<Longrightarrow> r < length (arrays w) \<Longrightarrow>
     (case out of Inl e \<Rightarrow> Inl e | Inr x \<Rightarrow> Inr (arrays w' ! x))
       = Divergence_loop (self_obj w) (arrays w ! p) ks (arrays w ! r)"
proof (induction ks arbitrary: w)
  case Nil
  then show ?case by auto
next
  case (Cons k ks)
  show ?case
  proof (cases "self_component w k")
    case (Inl e)
    with Cons.prems show ?thesis by (auto simp: self_component_def)
  next
    case d: (Inr d)
    show ?thesis
    proof (cases "nd_getitem (arrays w ! p) k :: 'e error + 'a ndarray")
      case (Inl e)
      with Cons.prems d show ?thesis by (auto simp: self_component_def)
    next
      case fk: (Inr fk)
      show ?thesis
      proof (cases "call d (NdArray fk)")
        case (Inl e)
        with Cons.prems d fk show ?thesis by (auto simp: self_component_def)
      next
        case v: (Inr v)
        show ?thesis
        proof (cases "nd_iadd (arrays w ! r) v :: 'e error + 'a ndarray")
          case (Inl e)
          with Cons.prems d fk v show ?thesis
            by (auto simp: self_component_def iadd_at_def)
        next
          case a': (Inr a')
          let ?w1 = "store (Whole r) a' w"
          have run: "Divergence_loop_run p r ks ?w1 = (out, w')"
            using Cons.prems(1) d fk v a' by (simp add: iadd_at_def)
          have w1: "self_obj ?w1 = self_obj w" "arrays ?w1 ! p = arrays w ! p"
            "arrays ?w1 ! r = a'" "length (arrays ?w1) = length (arrays w)"
            using Cons.prems(2,3) by (simp_all add: store_def)
          have "(case out of Inl e \<Rightarrow> Inl e | Inr x \<Rightarrow> Inr (arrays w' ! x))
              = Divergence_loop (self_obj ?w1) (arrays ?w1 ! p) ks (arrays ?w1 ! r)"
            using run Cons.prems(2) by (rule Cons.IH) (simp add: w1 Cons.prems(3))
          then show ?thesis
            using d fk v a' by (simp add: w1 self_component_def)
        qed
      qed
    qed
  qed
qed

lemma Divergence_run_value:
  fixes w :: "('a::{zero,plus}, ('a, 'e) VectorOperator) world"
  assumes "Divergence_run w p = (out, w')" and "p < length (arrays w)"
  shows "(case out of Inl e \<Rightarrow> Inl e | Inr x \<Rightarrow> Inr (arrays w' ! x))
           = Divergence_call (self_obj w) (NdArray (arrays w ! p))"
proof -
  let ?z = "np_zeros (tl (shape (arrays w ! p))) :: 'a ndarray"
  let ?w0 = "w\<lparr>arrays := arrays w @ [?z]\<rparr>"
  have loop: "(case out of Inl e \<Rightarrow> Inl e | Inr x \<Rightarrow> Inr (arrays w' ! x))
      = Divergence_loop (self_obj ?w0) (arrays ?w0 ! p) ks (arrays ?w0 ! length (arrays w))"
    if "Divergence_loop_run p (length (arrays w)) ks ?w0 = (out, w')" for ks
    using that by (rule Divergence_loop_run_value) (use assms(2) in simp_all)
  show ?thesis
    using assms loop
    by (auto simp: Divergence_run_def Divergence_call_def alloc_def nth_append
        split: option.splits sum.splits bool.splits)
qed

lemma Laplacian_loop_run_value:
  fixes w :: "('a::plus, ('a, 'e) Laplacian) world"
  shows "Laplacian_loop_run p r ps w = (out, w') \<Longrightarrow> p \<noteq> r \<Longrightarrow> r < length (arrays w) \<Longrightarrow>
     (case out of Inl e \<Rightarrow> Inl e | Inr x \<Rightarrow> Inr (arrays w' ! x))
       = Laplacian_loop (NdArray (arrays w ! p)) ps (arrays w ! r)"
proof (induction ps arbitrary: w)
  case Nil
  then show ?case by auto
next
  case (Cons part ps)
  show ?case
  proof (cases "call part (NdArray (arrays w ! p))")
    case (Inl e)
    with Cons.prems show ?thesis by auto
  next
    case v: (Inr v)
    show ?thesis
    proof (cases "nd_iadd (arrays w ! r) v :: 'e error + 'a ndarray")
      case (Inl e)
      with Cons.prems v show ?thesis by (auto simp: iadd_at_def)
    next
      case a': (Inr a')
      let ?w1 = "store (Whole r) a' w"
      have run: "Laplacian_loop_run p r ps ?w1 = (out, w')"
        using Cons.prems(1) v a' by (simp add: iadd_at_def)
      have w1: "arrays ?w1 ! p = arrays w ! p" "arrays ?w1 ! r = a'"
        "length (arrays ?w1) = length (arrays w)"
        using Cons.prems(2,3) by (simp_all add: store_def)
      have "(case out of Inl e \<Rightarrow> Inl e | Inr x \<Rightarrow> Inr (arrays w' ! x))
          = Laplacian_loop (NdArray (arrays ?w1 ! p)) ps (arrays ?w1 ! r)"
        using run Cons.prems(2) by (rule Cons.IH) (simp add: w1 Cons.prems(3))
      then show ?thesis
        using v a' by (simp add: w1)
    qed
  qed
qed

lemma Laplacian_run_value:
  fixes w :: "('a::{zero,plus}, ('a, 'e) Laplacian) world"
  assumes "Laplacian_run w p = (out, w')" and "p < length (arrays w)"
  shows "(case out of Inl e \<Rightarrow> Inl e | Inr x \<Rightarrow> Inr (arrays w' ! x))
           = Laplacian_call (self_obj w) (NdArray (arrays w ! p))"
proof -
  let ?z = "np_zeros (shape (arrays w ! p)) :: 'a ndarray"
  let ?w0 = "w\<lparr>arrays := arrays w @ [?z]\<rparr>"
  have run: "Laplacian_loop_run p (length (arrays w)) (parts (self_obj w)) ?w0 = (out, w')"
    using assms(1) by (simp add: Laplacian_run_def alloc_def)
  have "(case out of Inl e \<Rightarrow> Inl e | Inr x \<Rightarrow> Inr (arrays w' ! x))
      = Laplacian_loop (NdArray (arrays ?w0 ! p)) (parts (self_obj w))
          (arrays ?w0 ! length (arrays w))"
    using run by (rule Laplacian_loop_run_value) (use assms(2) in simp_all)
  then show ?thesis
    using assms(2) by (simp add: Laplacian_call_def np_zeros_like_def nth_append)
qed

lemma Curl_statement_run_value:
  fixes w :: "('a::{plus,minus}, ('a, 'e) VectorOperator) world"
  assumes "Curl_statement_run p r i a b w = (out, w')" and "p \<noteq> r" and "r < length (arrays w)"
  shows "(case out of
            Inl e \<Rightarrow> Curl_statement (self_obj w) (arrays w ! p) i a b (arrays w ! r) = Inl e
          | Inr u \<Rightarrow> Curl_statement (self_obj w) (arrays w ! p) i a b (arrays w ! r)
                       = Inr (arrays w' ! r))
       \<and> self_obj w' = self_obj w \<and> arrays w' ! p = arrays w ! p
       \<and> length (arrays w') = length (arrays w)"
  using assms
  by (auto simp: Curl_statement_run_def Curl_statement_def fetch_def self_component_def
      iadd_at_def store_def split: sum.splits)

lemma Curl_run_value:
  fixes w :: "('a::{zero,plus,minus}, ('a, 'e) VectorOperator) world"
  assumes "Curl_run w p = (out, w')" and "p < length (arrays w)"
  shows "(case out of Inl e \<Rightarrow> Inl e | Inr x \<Rightarrow> Inr (arrays w' ! x))
           = Curl_call (self_obj w) (NdArray (arrays w ! p))"
proof -
  let ?r = "length (arrays w)"
  let ?z = "np_zeros (shape (arrays w ! p)) :: 'a ndarray"
  let ?w0 = "w\<lparr>arrays := arrays w @ [?z]\<rparr>"
  have w0: "self_obj ?w0 = self_obj w" "arrays ?w0 ! p = arrays w ! p" "arrays ?w0 ! ?r = ?z"
    "?r < length (arrays ?w0)" "p \<noteq> ?r"
    using assms(2) by (simp_all add: nth_append)
  have st: "(case o1 of
            Inl e \<Rightarrow> Curl_statement (self_obj v) (arrays v ! p) i x y (arrays v ! ?r) = Inl e
          | Inr u \<Rightarrow> Curl_statement (self_obj v) (arrays v ! p) i x y (arrays v ! ?r)
                       = Inr (arrays v' ! ?r))
       \<and> self_obj v' = self_obj v \<and> arrays v' ! p = arrays v ! p
       \<and> length (arrays v') = length (arrays v)"
    if "Curl_statement_run p ?r i x y v = (o1, v')" "?r < length (arrays v)"
    for i x y o1 and v v' :: "('a, ('a, 'e) VectorOperator) world"
    using that(1) w0(5) that(2) by (rule Curl_statement_run_value)
  show ?thesis
  proof (cases "ndims (self_obj w)")
    case None
    with assms(1) show ?thesis by (auto simp: Curl_run_def Curl_call_def)
  next
    case (Some n)
    show ?thesis
    proof (cases "shape_test (arrays w ! p) n :: 'e error + bool")
      case (Inl e)
      with assms(1) Some show ?thesis by (auto simp: Curl_run_def Curl_call_def)
    next
      case (Inr t)
      show ?thesis
      proof (cases t)
        case True
        with assms(1) Some Inr show ?thesis by (auto simp: Curl_run_def Curl_call_def)
      next
        case False
        obtain o1 :: "'e error + unit" and w1 :: "('a, ('a, 'e) VectorOperator) world"
          where s1: "Curl_statement_run p ?r 0 1 2 ?w0 = (o1, w1)" by (rule prod.exhaust)
        obtain o2 :: "'e error + unit" and w2 :: "('a, ('a, 'e) VectorOperator) world"
          where s2: "Curl_statement_run p ?r 1 2 0 w1 = (o2, w2)" by (rule prod.exhaust)
        obtain o3 :: "'e error + unit" and w3 :: "('a, ('a, 'e) VectorOperator) world"
          where s3: "Curl_statement_run p ?r 2 0 1 w2 = (o3, w3)" by (rule prod.exhaust)
        note v1 = st [OF s1 w0(4)]
        have l1: "?r < length (arrays w1)" using v1 w0(4) by simp
        note v2 = st [OF s2 l1]
        have l2: "?r < length (arrays w2)" using v2 l1 by simp
        note v3 = st [OF s3 l2]
        show ?thesis
          using assms(1) Some Inr False s1 s2 s3 v1 v2 v3 w0
          by (auto simp: Curl_run_def Curl_call_def alloc_def split: sum.splits)
      qed
    qed
  qed
qed

lemma untouched_nth:
  assumes "untouched n w w'" and "p < n"
  shows "arrays w' ! p = arrays w ! p"
proof -
  have "take n (arrays w') ! p = take n (arrays w) ! p"
    using assms(1) by (simp add: untouched_def)
  then show ?thesis
    using assms(2) by simp
qed

text \<open>
  Claim C9. Applying \<open>Gradient\<close>, \<open>Divergence\<close>, \<open>Curl\<close> or \<open>Laplacian\<close> to the array at address
  \<open>p\<close>, whether the call returns or raises, leaves that array as it was, as well as every
  other array that existed before the call, and leaves the operator object (\<open>ndims\<close> and
  the differentiators) as it was: the only writes go to the array the call has created.
\<close>

theorem application_frame:
  fixes wg wg' :: "('a, ('a, 'e) VectorOperator) world"
    and wd wd' :: "('b::{zero,plus}, ('b, 'e) VectorOperator) world"
    and wc wc' :: "('c::{zero,plus,minus}, ('c, 'e) VectorOperator) world"
    and wl wl' :: "('d::{zero,plus}, ('d, 'e) Laplacian) world"
  shows "(Gradient_run wg p = (og, wg') \<and> p < length (arrays wg) \<longrightarrow>
            arrays wg' ! p = arrays wg ! p \<and> untouched (length (arrays wg)) wg wg')
       \<and> (Divergence_run wd p = (od, wd') \<and> p < length (arrays wd) \<longrightarrow>
            arrays wd' ! p = arrays wd ! p \<and> untouched (length (arrays wd)) wd wd')
       \<and> (Curl_run wc p = (oc, wc') \<and> p < length (arrays wc) \<longrightarrow>
            arrays wc' ! p = arrays wc ! p \<and> untouched (length (arrays wc)) wc wc')
       \<and> (Laplacian_run wl p = (ol, wl') \<and> p < length (arrays wl) \<longrightarrow>
            arrays wl' ! p = arrays wl ! p \<and> untouched (length (arrays wl)) wl wl')"
proof -
  have g: "arrays wg' ! p = arrays wg ! p \<and> untouched (length (arrays wg)) wg wg'"
    if "Gradient_run wg p = (og, wg')" "p < length (arrays wg)"
    using Gradient_run_untouched [OF that(1)] that(2) by (simp add: untouched_nth)
  have d: "arrays wd' ! p = arrays wd ! p \<and> untouched (length (arrays wd)) wd wd'"
    if "Divergence_run wd p = (od, wd')" "p < length (arrays wd)"
    using Divergence_run_untouched [OF that(1)] that(2) by (simp add: untouched_nth)
  have c: "arrays wc' ! p = arrays wc ! p \<and> untouched (length (arrays wc)) wc wc'"
    if "Curl_run wc p = (oc, wc')" "p < length (arrays wc)"
    using Curl_run_untouched [OF that(1)] that(2) by (simp add: untouched_nth)
  have l: "arrays wl' ! p = arrays wl ! p \<and> untouched (length (arrays wl)) wl wl'"
    if "Laplacian_run wl p = (ol, wl')" "p < length (arrays wl)"
    using Laplacian_run_untouched [OF that(1)] that(2) by (simp add: untouched_nth)
  show ?thesis
    using g d c l by blast
qed

text \<open>Claim C9 on one run of each operator, with the store after the run.\<close>

theorem application_frame_witness:
  "Gradient_run
      \<lparr>arrays = [\<lparr>shape = [2], data = [1, 2]\<rparr>],
       self_obj = \<lparr>attr_h = None, ndims = Some 1, components = Some [scaling 10]\<rparr>\<rparr> 0
    = (Inr 1,
       \<lparr>arrays = [\<lparr>shape = [2], data = [1, 2]\<rparr>, \<lparr>shape = [1, 2], data = [10, 20]\<rparr>],
        self_obj = \<lparr>attr_h = None, ndims = Some 1, components = Some [scaling 10]\<rparr>\<rparr>)
   \<and> Divergence_run
      \<lparr>arrays = [\<lparr>shape = [2, 2], data = [1, 2, 3, 4]\<rparr>],
       self_obj = \<lparr>attr_h = None, ndims = Some 2,
                   components = Some [scaling 1, scaling 10]\<rparr>\<rparr> 0
    = (Inr 1,
       \<lparr>arrays = [\<lparr>shape = [2, 2], data = [1, 2, 3, 4]\<rparr>, \<lparr>shape = [2], data = [31, 42]\<rparr>],
        self_obj = \<lparr>attr_h = None, ndims = Some 2,
                    components = Some [scaling 1, scaling 10]\<rparr>\<rparr>)
   \<and> Curl_run
      \<lparr>arrays = [\<lparr>shape = [3, 2], data = [1, 2, 3, 4, 5, 6]\<rparr>],
       self_obj = \<lparr>attr_h = None, ndims = Some 3,
                   components = Some [scaling 1, scaling 10, scaling 100]\<rparr>\<rparr> 0
    = (Inr 1,
       \<lparr>arrays = [\<lparr>shape = [3, 2], data = [1, 2, 3, 4, 5, 6]\<rparr>,
                  \<lparr>shape = [3, 2], data = [- 250, - 340, 95, 194, - 7, - 16]\<rparr>],
        self_obj = \<lparr>attr_h = None, ndims = Some 3,
                    components = Some [scaling 1, scaling 10, scaling 100]\<rparr>\<rparr>)
   \<and> Laplacian_run
      \<lparr>arrays = [\<lparr>shape = [3], data = [1, 2, 3]\<rparr>], self_obj = \<lparr>parts = [scaling 2]\<rparr>\<rparr> 0
    = (Inr 1,
       \<lparr>arrays = [\<lparr>shape = [3], data = [1, 2, 3]\<rparr>, \<lparr>shape = [3], data = [2, 4, 6]\<rparr>],
        self_obj = \<lparr>parts = [scaling 2]\<rparr>\<rparr>)"
proof -
  let ?wg = "\<lparr>arrays = [\<lparr>shape = [2], data = [1, 2]\<rparr>],
       self_obj = \<lparr>attr_h = None, ndims = Some 1, components = Some [scaling 10]\<rparr>\<rparr>"
  let ?wd = "\<lparr>arrays = [\<lparr>shape = [2, 2], data = [1, 2, 3, 4]\<rparr>],
       self_obj = \<lparr>attr_h = None, ndims = Some 2,
                   components = Some [scaling 1, scaling 10]\<rparr>\<rparr>"
  let ?wc = "\<lparr>arrays = [\<lparr>shape = [3, 2], data = [1, 2, 3, 4, 5, 6]\<rparr>],
       self_obj = \<lparr>attr_h = None, ndims = Some 3,
                   components = Some [scaling 1, scaling 10, scaling 100]\<rparr>\<rparr>"
  let ?wl = "\<lparr>arrays = [\<lparr>shape = [3], data = [1, 2, 3]\<rparr>], self_obj = \<lparr>parts = [scaling 2]\<rparr>\<rparr>"
  have g: "Gradient_run ?wg 0 = (Inr 1, ?wg\<lparr>arrays := arrays ?wg @ [\<lparr>shape = [1, 2], data = [10, 20]\<rparr>]\<rparr>)"
    by (simp add: Gradient_run_def get_component_def call_def scaling_def np_array_def alloc_def)
  have d: "Divergence_run ?wd 0 = (Inr 1, ?wd\<lparr>arrays := arrays ?wd @ [\<lparr>shape = [2], data = [31, 42]\<rparr>]\<rparr>)"
    by (simp add: Divergence_run_def shape_test_def alloc_def np_zeros_def numeral_2_eq_2
        self_component_def get_component_def nd_getitem_def subarray_def call_def scaling_def
        iadd_at_def nd_iadd_def broadcast_to_def store_def)
  have c: "Curl_run ?wc 0 = (Inr 1, ?wc\<lparr>arrays := arrays ?wc
             @ [\<lparr>shape = [3, 2], data = [- 250, - 340, 95, 194, - 7, - 16]\<rparr>]\<rparr>)"
    by (simp add: Curl_run_def Curl_statement_run_def shape_test_def alloc_def np_zeros_def
        fetch_def self_component_def get_component_def nd_getitem_def subarray_def call_def
        scaling_def nd_sub_def broadcast_shapes_def iadd_at_def nd_iadd_def broadcast_to_def
        store_def nd_setitem_def eval_nat_numeral)
  have l: "Laplacian_run ?wl 0 = (Inr 1, ?wl\<lparr>arrays := arrays ?wl @ [\<lparr>shape = [3], data = [2, 4, 6]\<rparr>]\<rparr>)"
    by (simp add: Laplacian_run_def alloc_def np_zeros_def call_def scaling_def iadd_at_def
        nd_iadd_def broadcast_to_def store_def eval_nat_numeral)
  show ?thesis
    using application_frame [of ?wg 0 "fst (Gradient_run ?wg 0)" "snd (Gradient_run ?wg 0)"
        ?wd "fst (Divergence_run ?wd 0)" "snd (Divergence_run ?wd 0)"
        ?wc "fst (Curl_run ?wc 0)" "snd (Curl_run ?wc 0)"
        ?wl "fst (Laplacian_run ?wl 0)" "snd (Laplacian_run ?wl 0)"] g d c l
    by simp
qed

end
